theory Spec2Isabelle
  imports Complex_Main
begin

section \<open>Strings and paths\<close>

text \<open>
  Python strings are modelled as HOL strings (lists of 8-bit characters, the UTF-8
  encoding of the text) and byte strings as lists of characters too.  \<open>str.lower\<close> is
  modelled on the ASCII letters and leaves every other character as it is: what it does
  to other characters never makes a name end with one of the extensions below, nor
  keeps it from ending with one.
\<close>

type_synonym path = string
type_synonym bytes = "char list"

definition ascii_uppercase :: string where
  "ascii_uppercase = ''ABCDEFGHIJKLMNOPQRSTUVWXYZ''"

definition ascii_lowercase :: string where
  "ascii_lowercase = ''abcdefghijklmnopqrstuvwxyz''"

definition lower_char :: "char \<Rightarrow> char" where
  "lower_char c =
     (case map_of (zip ascii_uppercase ascii_lowercase) c of Some l \<Rightarrow> l | None \<Rightarrow> c)"

definition lower :: "string \<Rightarrow> string" where
  "lower s = map lower_char s"

text \<open>\<open>s.endswith(ext)\<close>.\<close>

definition endswith :: "string \<Rightarrow> string \<Rightarrow> bool" where
  "endswith s ext = (length ext \<le> length s \<and> drop (length s - length ext) s = ext)"

text \<open>\<open>s.rfind(c)\<close> for a one-character \<open>c\<close>: the highest index of \<open>c\<close>, or \<open>-1\<close>.\<close>

fun rfind_from :: "char \<Rightarrow> string \<Rightarrow> nat \<Rightarrow> int \<Rightarrow> int" where
  "rfind_from c [] i best = best"
| "rfind_from c (x # xs) i best = rfind_from c xs (Suc i) (if x = c then int i else best)"

definition rfind :: "string \<Rightarrow> char \<Rightarrow> int" where
  "rfind s c = rfind_from c s 0 (- 1)"

text \<open>
  \<open>os.path.join(a, b)\<close> of \<open>posixpath\<close>, for two arguments: an absolute \<open>b\<close> replaces
  \<open>a\<close>; otherwise \<open>b\<close> is appended, after a separator unless \<open>a\<close> is empty or ends
  with one.
\<close>

definition os_path_join :: "path \<Rightarrow> string \<Rightarrow> path" where
  "os_path_join a b =
     (if take 1 b = ''/'' then b
      else if a = [] \<or> endswith a ''/'' then a @ b
      else a @ ''/'' @ b)"

text \<open>
  \<open>os.path.splitext(p)\<close> of \<open>posixpath\<close> (\<open>genericpath._splitext\<close>): the extension
  starts at the last dot of the last path component, unless only dots precede that dot
  in the component.
\<close>

definition os_path_splitext :: "path \<Rightarrow> string \<times> string" where
  "os_path_splitext p =
     (let sepIndex = rfind p (CHR ''/'');
          dotIndex = rfind p (CHR ''.'')
      in if dotIndex > sepIndex \<and>
            list_ex (\<lambda>c. c \<noteq> CHR ''.'') (drop (nat (sepIndex + 1)) (take (nat dotIndex) p))
         then (take (nat dotIndex) p, drop (nat dotIndex) p)
         else (p, []))"

section \<open>The file selector's test on names\<close>

definition valid_extensions :: "string list" where
  "valid_extensions = [''.jpg'', ''.jpeg'', ''.png'', ''.gif'', ''.bmp'', ''.webp'']"

definition is_image_file :: "string \<Rightarrow> bool" where
  "is_image_file filename = list_ex (\<lambda>ext. endswith (lower filename) ext) valid_extensions"

section \<open>Exceptions and outcomes\<close>

text \<open>
  Every exception modelled here is a subclass of Python's \<open>Exception\<close>; only
  \<open>TinifyError\<close> (\<open>tinify.Error\<close> and its subclasses \<open>AccountError\<close>,
  \<open>ClientError\<close>, \<open>ServerError\<close>, \<open>ConnectionError\<close>) is a \<open>tinify.Error\<close>.
  \<open>OSError\<close> carries the name of its error number, \<open>ImageError\<close> stands for
  whatever the imaging library raises.  Exceptions outside \<open>Exception\<close>, such as
  \<open>KeyboardInterrupt\<close>, are not modelled.
\<close>

datatype exn =
  OSError string | ZeroDivisionError | OverflowError | ImageError string | TinifyError string

fun is_tinify_Error :: "exn \<Rightarrow> bool" where
  "is_tinify_Error (TinifyError m) = True"
| "is_tinify_Error e = False"

datatype 'a outcome = Return 'a | Raise exn

section \<open>Floating point\<close>

text \<open>
  Python's \<open>float\<close> is the IEEE 754 double: 53 significant bits, every operation rounded
  to the nearest double, ties to the even one.  A finite double is modelled by the
  rational it denotes.  \<open>round_to_double\<close> rounds a rational to 53 significant bits with
  no bound on the exponent; \<open>to_double\<close> adds the overflow to an infinity at \<open>2 ^ 1024\<close>.
  Doubles below \<open>2 ^ -1022\<close> are not modelled apart: the only quotient that small is
  subtracted from one below, and the difference rounds to one however the quotient was
  rounded.
\<close>

text \<open>\<open>int.bit_length\<close>.\<close>

function bit_length :: "int \<Rightarrow> int" where
  "bit_length n = (if n \<le> 0 then 0 else bit_length (n div 2) + 1)"
  by pat_completeness auto
termination
  by (relation "measure nat") auto

definition pow2 :: "int \<Rightarrow> rat" where
  "pow2 e = (if 0 \<le> e then of_int (2 ^ nat e) else 1 / of_int (2 ^ nat (- e)))"

text \<open>For \<open>x > 0\<close>, the \<open>e\<close> with \<open>2 ^ e \<le> x < 2 ^ (e + 1)\<close>.\<close>

definition exponent :: "rat \<Rightarrow> int" where
  "exponent x =
     (let (a, b) = quotient_of x;
          d = bit_length a - bit_length b
      in if pow2 d \<le> x then d else d - 1)"

definition round_half_even :: "rat \<Rightarrow> int" where
  "round_half_even x =
     (let n = \<lfloor>x\<rfloor>; rest = x - of_int n
      in if rest < 1 / 2 then n
         else if 1 / 2 < rest then n + 1
         else if even n then n else n + 1)"

definition round_to_double :: "rat \<Rightarrow> rat" where
  "round_to_double x =
     (if x = 0 then 0
      else (let ulp = pow2 (exponent \<bar>x\<bar> - 52)
            in of_int (round_half_even (x / ulp)) * ulp))"

datatype double = Finite rat | Plus_inf | Minus_inf

definition to_double :: "rat \<Rightarrow> double" where
  "to_double x =
     (let y = round_to_double x
      in if pow2 1024 \<le> y then Plus_inf
         else if y \<le> - pow2 1024 then Minus_inf
         else Finite y)"

text \<open>
  \<open>a / b\<close> on two integers: the quotient rounded once; \<open>ZeroDivisionError\<close> for a zero
  divisor, \<open>OverflowError\<close> for a quotient too large for a double.
\<close>

definition true_divide :: "nat \<Rightarrow> nat \<Rightarrow> exn + rat" where
  "true_divide a b =
     (if b = 0 then Inl ZeroDivisionError
      else (case to_double (of_nat a / of_nat b) of
              Finite q \<Rightarrow> Inr q
            | Plus_inf \<Rightarrow> Inl OverflowError
            | Minus_inf \<Rightarrow> Inl OverflowError))"

text \<open>
  What the format \<open>:.2f\<close> prints: for a finite double the sign and the digits of the
  nearest number with two decimals (ties to even), here the sign and the number of
  hundredths; \<open>inf\<close> and \<open>-inf\<close> for the infinities.  A negative double that rounds to
  zero prints as \<open>-0.00\<close>.
\<close>

datatype two_decimals = Decimal bool nat | Text_inf | Text_minus_inf

definition format_2f :: "double \<Rightarrow> two_decimals" where
  "format_2f x =
     (case x of
        Finite y \<Rightarrow> Decimal (y < 0) (nat (round_half_even (\<bar>y\<bar> * 100)))
      | Plus_inf \<Rightarrow> Text_inf
      | Minus_inf \<Rightarrow> Text_minus_inf)"

text \<open>The number that a printed text denotes.\<close>

fun printed_value :: "two_decimals \<Rightarrow> rat option" where
  "printed_value (Decimal negative hundredths) =
     Some ((if negative then - 1 else 1) * of_nat hundredths / 100)"
| "printed_value Text_inf = None"
| "printed_value Text_minus_inf = None"

section \<open>The log\<close>

datatype level = ERROR | INFO

text \<open>
  The messages of the source, one constructor per format string.  The message of a
  compression carries the path and the reduction as it is printed.
\<close>

datatype message =
    Image_path_does_not_exist path
  | Compressed_Reduction path two_decimals
  | Error_compressing_image path exn
  | Converted_to_WebP path
  | Error_converting_image_to_WebP exn
  | Compressed_using_Tinyfy_API path
  | Tinyfy_API_error exn

section \<open>The file system\<close>

text \<open>
  A file system maps a path to the node stored under it.  Paths are compared as they
  are written: the model does not normalise \<open>.\<close>, \<open>..\<close>, repeated or trailing
  separators, and a symbolic link holds the path of its target as written.  A regular
  file carries whether this process may open it for reading and for writing.  A
  directory carries its \<open>st_size\<close> and the names \<open>os.listdir\<close> yields, in that order.
  Permissions of directories are not modelled.
\<close>

record regular_file =
  readable :: bool
  writable :: bool
  content :: bytes

datatype node = File regular_file | Dir nat "string list" | Symlink path

type_synonym filesystem = "path \<Rightarrow> node option"

text \<open>Following symbolic links, at most \<open>MAXSYMLINKS\<close> of them (\<open>ELOOP\<close> beyond).\<close>

fun follow :: "nat \<Rightarrow> filesystem \<Rightarrow> path \<Rightarrow> path option" where
  "follow 0 fs p = (case fs p of Some (Symlink t) \<Rightarrow> None | _ \<Rightarrow> Some p)"
| "follow (Suc n) fs p = (case fs p of Some (Symlink t) \<Rightarrow> follow n fs t | _ \<Rightarrow> Some p)"

definition MAXSYMLINKS :: nat where
  "MAXSYMLINKS = 40"

definition resolve :: "filesystem \<Rightarrow> path \<Rightarrow> path option" where
  "resolve fs p = follow MAXSYMLINKS fs p"

text \<open>\<open>os.stat\<close>, which follows links; \<open>None\<close> when it raises.\<close>

definition stat :: "filesystem \<Rightarrow> path \<Rightarrow> node option" where
  "stat fs p = (case resolve fs p of None \<Rightarrow> None | Some q \<Rightarrow> fs q)"

definition os_path_exists :: "filesystem \<Rightarrow> path \<Rightarrow> bool" where
  "os_path_exists fs p = (stat fs p \<noteq> None)"

definition os_path_isfile :: "filesystem \<Rightarrow> path \<Rightarrow> bool" where
  "os_path_isfile fs p = (case stat fs p of Some (File f) \<Rightarrow> True | _ \<Rightarrow> False)"

definition os_path_getsize :: "filesystem \<Rightarrow> path \<Rightarrow> exn + nat" where
  "os_path_getsize fs p =
     (case stat fs p of
        Some (File f) \<Rightarrow> Inr (length (content f))
      | Some (Dir sz names) \<Rightarrow> Inr sz
      | _ \<Rightarrow> Inl (OSError ''ENOENT''))"

definition os_listdir :: "filesystem \<Rightarrow> path \<Rightarrow> exn + string list" where
  "os_listdir fs p =
     (case stat fs p of
        Some (Dir sz names) \<Rightarrow> Inr names
      | Some _ \<Rightarrow> Inl (OSError ''ENOTDIR'')
      | None \<Rightarrow> Inl (OSError ''ENOENT''))"

text \<open>\<open>open(p, 'rb').read()\<close>.\<close>

definition read_bytes :: "filesystem \<Rightarrow> path \<Rightarrow> exn + bytes" where
  "read_bytes fs p =
     (case resolve fs p of
        None \<Rightarrow> Inl (OSError ''ELOOP'')
      | Some q \<Rightarrow>
          (case fs q of
             None \<Rightarrow> Inl (OSError ''ENOENT'')
           | Some (Dir sz names) \<Rightarrow> Inl (OSError ''EISDIR'')
           | Some (Symlink t) \<Rightarrow> Inl (OSError ''ELOOP'')
           | Some (File f) \<Rightarrow> if readable f then Inr (content f) else Inl (OSError ''EACCES'')))"

text \<open>The directory part and the last component of a path, as the kernel reads them.\<close>

definition parent_dir :: "path \<Rightarrow> path" where
  "parent_dir q =
     (let i = rfind q (CHR ''/'') in if i < 0 then [] else if i = 0 then ''/'' else take (nat i) q)"

definition entry_name :: "path \<Rightarrow> string" where
  "entry_name q = drop (nat (rfind q (CHR ''/'') + 1)) q"

text \<open>
  \<open>open(p, 'wb')\<close> and, with \<open>rw\<close>, \<open>open(p, 'w+b')\<close>: links are followed, an existing
  regular file is truncated, a missing one is created in its directory.  The result is
  the path of the file that is now open and the file system after the call.
\<close>

definition open_trunc :: "bool \<Rightarrow> filesystem \<Rightarrow> path \<Rightarrow> exn + path \<times> filesystem" where
  "open_trunc rw fs p =
     (case resolve fs p of
        None \<Rightarrow> Inl (OSError ''ELOOP'')
      | Some q \<Rightarrow>
          (case fs q of
             Some (File f) \<Rightarrow>
               if (if rw then readable f \<and> writable f else writable f)
               then Inr (q, fs(q \<mapsto> File (f\<lparr>content := []\<rparr>)))
               else Inl (OSError ''EACCES'')
           | Some (Dir sz names) \<Rightarrow> Inl (OSError ''EISDIR'')
           | Some (Symlink t) \<Rightarrow> Inl (OSError ''ELOOP'')
           | None \<Rightarrow>
               (case fs (parent_dir q) of
                  Some (Dir sz names) \<Rightarrow>
                    Inr (q, fs(parent_dir q \<mapsto> Dir sz (names @ [entry_name q]),
                               q \<mapsto> File \<lparr>readable = True, writable = True, content = []\<rparr>))
                | _ \<Rightarrow> Inl (OSError ''ENOENT''))))"

text \<open>Writing \<open>data\<close> to the open file and closing it.\<close>

definition write_all :: "path \<Rightarrow> bytes \<Rightarrow> filesystem \<Rightarrow> filesystem" where
  "write_all q data fs =
     (case fs q of Some (File f) \<Rightarrow> fs(q \<mapsto> File (f\<lparr>content := data\<rparr>)) | _ \<Rightarrow> fs)"

text \<open>\<open>os.remove(p)\<close>: unlinks the entry \<open>p\<close> itself, a link included.\<close>

definition os_remove :: "filesystem \<Rightarrow> path \<Rightarrow> exn + filesystem" where
  "os_remove fs p =
     (case fs p of
        None \<Rightarrow> Inl (OSError ''ENOENT'')
      | Some (Dir sz names) \<Rightarrow> Inl (OSError ''EISDIR'')
      | Some nd \<Rightarrow>
          Inr (case fs (parent_dir p) of
                 Some (Dir sz names) \<Rightarrow>
                   fs(p := None, parent_dir p \<mapsto> Dir sz (removeAll (entry_name p) names))
               | _ \<Rightarrow> fs(p := None)))"

section \<open>The state of a run\<close>

text \<open>
  The file system, the records the logger has written, and the number of requests sent
  to the remote service so far.
\<close>

record world =
  files :: filesystem
  log_records :: "(level \<times> message) list"
  requests :: nat

definition logger_error :: "message \<Rightarrow> world \<Rightarrow> world" where
  "logger_error m w = w\<lparr>log_records := log_records w @ [(ERROR, m)]\<rparr>"

definition logger_info :: "message \<Rightarrow> world \<Rightarrow> world" where
  "logger_info m w = w\<lparr>log_records := log_records w @ [(INFO, m)]\<rparr>"

section \<open>The imaging library\<close>

text \<open>
  The library is not part of the repository.  What it computes is a parameter of the
  model (a \<open>pil\<close> record); how its calls touch the file system follows the library:
  \<open>Image.open\<close> reads the file, \<open>Image.save\<close> loads the pixel data and picks the
  encoder, then opens the target with mode \<open>w+b\<close>, then runs the encoder on the open
  file.
\<close>

record image =
  format :: string
  width_height :: "int \<times> int"
  info_exif :: "bytes option"
  pixels :: bytes

datatype resample = NEAREST | BOX | BILINEAR | HAMMING | BICUBIC | ANTIALIAS

datatype pyval = PyNone | PyInt int | PyBool bool | PyBytes bytes

text \<open>
  What saving does: \<open>Encoded\<close> the whole output; \<open>Refused\<close> an exception raised before
  the target is opened (pixel data that cannot be loaded, a format with no encoder);
  \<open>Broken\<close> an exception raised by the encoder after the target was opened, with the
  bytes written until then.
\<close>

datatype save_result = Encoded bytes | Refused exn | Broken exn bytes

record pil =
  identify :: "bytes \<Rightarrow> exn + image"
  resize_image :: "image \<Rightarrow> int \<times> int \<Rightarrow> resample \<Rightarrow> exn + image"
  save_handler :: "string \<Rightarrow> image \<Rightarrow> (string \<times> pyval) list \<Rightarrow> save_result"
  remove_created :: bool

definition Image_open :: "pil \<Rightarrow> path \<Rightarrow> world \<Rightarrow> exn + image" where
  "Image_open lib fp w =
     (case read_bytes (files w) fp of Inl e \<Rightarrow> Inl e | Inr b \<Rightarrow> identify lib b)"

text \<open>
  \<open>img.save(fp, format, **params)\<close>.  When the encoder fails, a file that the call
  created is removed again by the releases of the library that do so
  (\<open>remove_created\<close>); a file that was there before is left as the encoder left it.
\<close>

definition Image_save ::
  "pil \<Rightarrow> image \<Rightarrow> path \<Rightarrow> string \<Rightarrow> (string \<times> pyval) list \<Rightarrow> world \<Rightarrow> unit outcome \<times> world"
where
  "Image_save lib img fp fmt params w =
     (case save_handler lib fmt img params of
        Refused e \<Rightarrow> (Raise e, w)
      | Encoded data \<Rightarrow>
          (case open_trunc True (files w) fp of
             Inl e \<Rightarrow> (Raise e, w)
           | Inr (q, fs1) \<Rightarrow> (Return (), w\<lparr>files := write_all q data fs1\<rparr>))
      | Broken e part \<Rightarrow>
          (let created = \<not> os_path_exists (files w) fp in
           case open_trunc True (files w) fp of
             Inl e' \<Rightarrow> (Raise e', w)
           | Inr (q, fs1) \<Rightarrow>
               (let fs2 = write_all q part fs1 in
                if created \<and> remove_created lib
                then (case os_remove fs2 fp of
                        Inr fs3 \<Rightarrow> (Raise e, w\<lparr>files := fs3\<rparr>)
                      | Inl e' \<Rightarrow> (Raise e', w\<lparr>files := fs2\<rparr>))
                else (Raise e, w\<lparr>files := fs2\<rparr>))))"

section \<open>The remote service\<close>

text \<open>
  The client of the remote service is not part of the repository either.  Its answers
  are a parameter: \<open>shrink\<close> answers the upload of a file's bytes with the location of
  the result, \<open>fetch\<close> answers the download of that location; each may fail with the
  message of a \<open>tinify.Error\<close>.  Both take the number of requests sent before, so
  that the service may answer the same request differently at different times.
\<close>

record tinify_client =
  shrink :: "nat \<Rightarrow> bytes \<Rightarrow> string + string"
  fetch :: "nat \<Rightarrow> string \<Rightarrow> string + bytes"

text \<open>\<open>tinify.from_file(path)\<close>: reads the file, then uploads it.\<close>

definition tinify_from_file :: "tinify_client \<Rightarrow> path \<Rightarrow> world \<Rightarrow> string outcome \<times> world" where
  "tinify_from_file cl fp w =
     (case read_bytes (files w) fp of
        Inl e \<Rightarrow> (Raise e, w)
      | Inr b \<Rightarrow>
          (case shrink cl (requests w) b of
             Inl m \<Rightarrow> (Raise (TinifyError m), w\<lparr>requests := requests w + 1\<rparr>)
           | Inr location \<Rightarrow> (Return location, w\<lparr>requests := requests w + 1\<rparr>)))"

text \<open>\<open>source.to_file(path)\<close>: downloads the result, then opens \<open>path\<close> with mode \<open>wb\<close>
  and writes it.\<close>

definition tinify_to_file :: "tinify_client \<Rightarrow> string \<Rightarrow> path \<Rightarrow> world \<Rightarrow> unit outcome \<times> world" where
  "tinify_to_file cl source fp w =
     (case fetch cl (requests w) source of
        Inl m \<Rightarrow> (Raise (TinifyError m), w\<lparr>requests := requests w + 1\<rparr>)
      | Inr data \<Rightarrow>
          (case open_trunc False (files w) fp of
             Inl e \<Rightarrow> (Raise e, w\<lparr>requests := requests w + 1\<rparr>)
           | Inr (q, fs1) \<Rightarrow>
               (Return (), w\<lparr>files := write_all q data fs1, requests := requests w + 1\<rparr>)))"

section \<open>The program\<close>

subsection \<open>\<open>compress_image\<close>\<close>

text \<open>
  Line 41: \<open>(1 - (compressed_size / original_size)) * 100\<close>, three operations on doubles,
  each rounded.  The difference needs no test for overflow, being no larger than the
  quotient or one.
\<close>

definition reduction :: "nat \<Rightarrow> nat \<Rightarrow> exn + double" where
  "reduction compressed_size original_size =
     (case true_divide compressed_size original_size of
        Inl e \<Rightarrow> Inl e
      | Inr ratio \<Rightarrow> Inr (to_double (round_to_double (1 - ratio) * 100)))"

text \<open>Line 33: the EXIF data handed to the encoder, \<open>None\<close> unless it is to be kept
  and the image has some.\<close>

definition exif_argument :: "bool \<Rightarrow> image \<Rightarrow> pyval" where
  "exif_argument preserve_exif img =
     (case info_exif img of
        Some b \<Rightarrow> if preserve_exif then PyBytes b else PyNone
      | None \<Rightarrow> PyNone)"

text \<open>
  Lines 35 and 36: the image is resized when a target is given.  A release of the library
  that has no \<open>Image.ANTIALIAS\<close> raises here; that is an exception of \<open>resize_image\<close>.
\<close>

definition resize_if_given :: "pil \<Rightarrow> image \<Rightarrow> (int \<times> int) option \<Rightarrow> exn + image" where
  "resize_if_given lib img resize =
     (case resize of
        Some target \<Rightarrow> resize_image lib img target ANTIALIAS
      | None \<Rightarrow> Inr img)"

text \<open>Line 38: the keyword arguments of \<open>img.save\<close>.\<close>

definition save_arguments :: "int \<Rightarrow> pyval \<Rightarrow> (string \<times> pyval) list" where
  "save_arguments quality exif =
     [(''quality'', PyInt quality), (''optimize'', PyBool True), (''exif'', exif)]"

text \<open>The body of the \<open>try\<close> statement, lines 31 to 42.\<close>

definition compress_image_try ::
  "pil \<Rightarrow> path \<Rightarrow> int \<Rightarrow> (int \<times> int) option \<Rightarrow> bool \<Rightarrow> nat \<Rightarrow> world \<Rightarrow> unit outcome \<times> world"
where
  "compress_image_try lib image_path quality resize preserve_exif original_size w =
     (case Image_open lib image_path w of
        Inl e \<Rightarrow> (Raise e, w)
      | Inr img \<Rightarrow>
          (let img_format = format img;
               exif = exif_argument preserve_exif img
           in case resize_if_given lib img resize of
                Inl e \<Rightarrow> (Raise e, w)
              | Inr img' \<Rightarrow>
                  (case Image_save lib img' image_path img_format (save_arguments quality exif) w of
                     (Raise e, w') \<Rightarrow> (Raise e, w')
                   | (Return u, w') \<Rightarrow>
                       (case os_path_getsize (files w') image_path of
                          Inl e \<Rightarrow> (Raise e, w')
                        | Inr compressed_size \<Rightarrow>
                            (case reduction compressed_size original_size of
                               Inl e \<Rightarrow> (Raise e, w')
                             | Inr percent \<Rightarrow>
                                 (Return (),
                                  logger_info (Compressed_Reduction image_path
                                    (format_2f percent)) w'))))))"

definition compress_image ::
  "pil \<Rightarrow> path \<Rightarrow> int \<Rightarrow> (int \<times> int) option \<Rightarrow> bool \<Rightarrow> world \<Rightarrow> unit outcome \<times> world"
where
  "compress_image lib image_path quality resize preserve_exif w =
     (if \<not> os_path_exists (files w) image_path
      then (Return (), logger_error (Image_path_does_not_exist image_path) w)
      else case os_path_getsize (files w) image_path of
             Inl e \<Rightarrow> (Raise e, w)
           | Inr original_size \<Rightarrow>
               (case compress_image_try lib image_path quality resize preserve_exif original_size w of
                  (Raise e, w') \<Rightarrow> (Return (), logger_error (Error_compressing_image image_path e) w')
                | (Return u, w') \<Rightarrow> (Return (), w')))"

subsection \<open>\<open>convert_to_webp\<close>\<close>

text \<open>The body of the \<open>try\<close> statement, lines 89 to 93.\<close>

definition convert_to_webp_try :: "pil \<Rightarrow> path \<Rightarrow> world \<Rightarrow> path outcome \<times> world" where
  "convert_to_webp_try lib image_path w =
     (case Image_open lib image_path w of
        Inl e \<Rightarrow> (Raise e, w)
      | Inr img \<Rightarrow>
          (let webp_path = fst (os_path_splitext image_path) @ ''.webp'' in
           case Image_save lib img webp_path ''WEBP'' [] w of
             (Raise e, w') \<Rightarrow> (Raise e, w')
           | (Return u, w') \<Rightarrow> (Return webp_path, logger_info (Converted_to_WebP image_path) w')))"

text \<open>The result \<open>None\<close> is Python's \<open>None\<close>.\<close>

definition convert_to_webp :: "pil \<Rightarrow> path \<Rightarrow> world \<Rightarrow> path option outcome \<times> world" where
  "convert_to_webp lib image_path w =
     (if \<not> os_path_exists (files w) image_path
      then (Return None, logger_error (Image_path_does_not_exist image_path) w)
      else case convert_to_webp_try lib image_path w of
             (Raise e, w') \<Rightarrow> (Return None, logger_error (Error_converting_image_to_WebP e) w')
           | (Return webp_path, w') \<Rightarrow> (Return (Some webp_path), w'))"

subsection \<open>\<open>compress_image_tinyfy\<close>\<close>

text \<open>The body of the \<open>try\<close> statement, lines 121 to 123.\<close>

definition compress_image_tinyfy_try :: "tinify_client \<Rightarrow> path \<Rightarrow> world \<Rightarrow> unit outcome \<times> world" where
  "compress_image_tinyfy_try cl image_path w =
     (case tinify_from_file cl image_path w of
        (Raise e, w') \<Rightarrow> (Raise e, w')
      | (Return source, w') \<Rightarrow>
          (case tinify_to_file cl source image_path w' of
             (Raise e, w'') \<Rightarrow> (Raise e, w'')
           | (Return u, w'') \<Rightarrow>
               (Return (), logger_info (Compressed_using_Tinyfy_API image_path) w'')))"

text \<open>The handler is \<open>except tinify.Error\<close>: any other exception leaves the function.\<close>

definition compress_image_tinyfy :: "tinify_client \<Rightarrow> path \<Rightarrow> world \<Rightarrow> unit outcome \<times> world" where
  "compress_image_tinyfy cl image_path w =
     (if \<not> os_path_exists (files w) image_path
      then (Return (), logger_error (Image_path_does_not_exist image_path) w)
      else case compress_image_tinyfy_try cl image_path w of
             (Raise e, w') \<Rightarrow>
               if is_tinify_Error e then (Return (), logger_error (Tinyfy_API_error e) w')
               else (Raise e, w')
           | (Return u, w') \<Rightarrow> (Return (), w'))"

subsection \<open>The directory drivers\<close>

text \<open>
  The loop that the three drivers share, over the names that \<open>os.listdir\<close> returned.
  An exception that leaves the per-file operation leaves the loop, and the driver.  The
  progress bar is not modelled.
\<close>

fun for_each_file ::
  "(path \<Rightarrow> world \<Rightarrow> 'a outcome \<times> world) \<Rightarrow> path \<Rightarrow> string list \<Rightarrow> world \<Rightarrow> unit outcome \<times> world"
where
  "for_each_file operation directory_path [] w = (Return (), w)"
| "for_each_file operation directory_path (filename # rest) w =
     (let file_path = os_path_join directory_path filename in
      if os_path_isfile (files w) file_path \<and> is_image_file filename
      then (case operation file_path w of
              (Raise e, w') \<Rightarrow> (Raise e, w')
            | (Return r, w') \<Rightarrow> for_each_file operation directory_path rest w')
      else for_each_file operation directory_path rest w)"

definition compress_images_in_directory ::
  "pil \<Rightarrow> path \<Rightarrow> int \<Rightarrow> (int \<times> int) option \<Rightarrow> bool \<Rightarrow> world \<Rightarrow> unit outcome \<times> world"
where
  "compress_images_in_directory lib directory_path quality resize preserve_exif w =
     (case os_listdir (files w) directory_path of
        Inl e \<Rightarrow> (Raise e, w)
      | Inr names \<Rightarrow>
          for_each_file (\<lambda>file_path. compress_image lib file_path quality resize preserve_exif)
            directory_path names w)"

definition convert_directory_to_webp :: "pil \<Rightarrow> path \<Rightarrow> world \<Rightarrow> unit outcome \<times> world" where
  "convert_directory_to_webp lib directory_path w =
     (case os_listdir (files w) directory_path of
        Inl e \<Rightarrow> (Raise e, w)
      | Inr names \<Rightarrow> for_each_file (convert_to_webp lib) directory_path names w)"

definition compress_images_in_directory_tinyfy ::
  "tinify_client \<Rightarrow> path \<Rightarrow> world \<Rightarrow> unit outcome \<times> world"
where
  "compress_images_in_directory_tinyfy cl directory_path w =
     (case os_listdir (files w) directory_path of
        Inl e \<Rightarrow> (Raise e, w)
      | Inr names \<Rightarrow> for_each_file (compress_image_tinyfy cl) directory_path names w)"

subsection \<open>Notions the properties are stated with\<close>

text \<open>
  The entries of a listing that a driver hands to its operation when it tests them in
  the file system \<open>fs\<close>: the file selector.
\<close>

definition select_images :: "filesystem \<Rightarrow> path \<Rightarrow> string list \<Rightarrow> path list" where
  "select_images fs directory_path names =
     map (os_path_join directory_path)
       (filter (\<lambda>filename. os_path_isfile fs (os_path_join directory_path filename)
                  \<and> is_image_file filename) names)"

text \<open>Calling an operation once on each path of a list, in order, until one raises.\<close>

fun run_all ::
  "(path \<Rightarrow> world \<Rightarrow> 'a outcome \<times> world) \<Rightarrow> path list \<Rightarrow> world \<Rightarrow> unit outcome \<times> world"
where
  "run_all operation [] w = (Return (), w)"
| "run_all operation (file_path # rest) w =
     (case operation file_path w of
        (Raise e, w') \<Rightarrow> (Raise e, w')
      | (Return r, w') \<Rightarrow> run_all operation rest w')"

text \<open>
  What no operation of the program changes in a node that exists: that it is a regular
  file, a directory or a link, the permissions of a file, the target of a link.
\<close>

fun shape :: "node \<Rightarrow> node" where
  "shape (File f) = File (f\<lparr>content := []\<rparr>)"
| "shape (Dir sz names) = Dir 0 []"
| "shape (Symlink t) = Symlink t"

text \<open>Two file systems with the same paths, each with a node of the same shape.\<close>

definition same_shape :: "filesystem \<Rightarrow> filesystem \<Rightarrow> bool" where
  "same_shape fs fs' = (\<forall>p. map_option shape (fs' p) = map_option shape (fs p))"


section \<open>Examples\<close>

text \<open>
  Concrete file systems, a concrete imaging library and concrete service clients, on
  which the properties below are evaluated.
\<close>

definition rw_file :: "bytes \<Rightarrow> node" where
  "rw_file b = File \<lparr>readable = True, writable = True, content = b\<rparr>"

definition initial_world :: "filesystem \<Rightarrow> world" where
  "initial_world fs = \<lparr>files = fs, log_records = [], requests = 0\<rparr>"

text \<open>The directory of the scenario: two images and a text file.\<close>

definition scenario_files :: filesystem where
  "scenario_files =
     [''/d'' \<mapsto> Dir 4096 [''a.jpg'', ''b.txt'', ''c.PNG''],
      ''/d/a.jpg'' \<mapsto> rw_file ''JPEG:aaaaaaaaaaaa'',
      ''/d/b.txt'' \<mapsto> rw_file ''some text'',
      ''/d/c.PNG'' \<mapsto> rw_file ''PNG:cccccc'']"

text \<open>The same directory with a first image that may be read but not written.\<close>

definition readonly_files :: filesystem where
  "readonly_files =
     scenario_files(''/d/a.jpg'' \<mapsto> File \<lparr>readable = True, writable = False, content = ''JPEG:aaaaaaaaaaaa''\<rparr>)"

text \<open>A directory with an image and a symbolic link to it.\<close>

definition linked_files :: filesystem where
  "linked_files =
     [''/d'' \<mapsto> Dir 4096 [''a.jpg'', ''l.gif''],
      ''/d/a.jpg'' \<mapsto> rw_file ''JPEG:aaaaaaaaaaaa'',
      ''/d/l.gif'' \<mapsto> Symlink ''/d/a.jpg'']"


text \<open>A directory with an image that has the extension of the target format already.\<close>

definition webp_files :: filesystem where
  "webp_files =
     [''/d'' \<mapsto> Dir 4096 [''p.webp''],
      ''/d/p.webp'' \<mapsto> rw_file ''WEBP:pppppppp'']"

text \<open>
  A library that identifies an image by the first bytes of its file, resizes to the
  size it is given, and encodes by writing the format and the first four pixel bytes.
\<close>

definition example_pil :: pil where
  "example_pil =
     \<lparr>identify = (\<lambda>b.
        if take 5 b = ''JPEG:''
        then Inr \<lparr>format = ''JPEG'', width_height = (4, 3), info_exif = None, pixels = drop 5 b\<rparr>
        else if take 4 b = ''PNG:''
        then Inr \<lparr>format = ''PNG'', width_height = (3, 2), info_exif = None, pixels = drop 4 b\<rparr>
        else if take 5 b = ''WEBP:''
        then Inr \<lparr>format = ''WEBP'', width_height = (2, 2), info_exif = None, pixels = drop 5 b\<rparr>
        else Inl (ImageError ''cannot identify image file'')),
      resize_image = (\<lambda>img target flt. Inr (img\<lparr>format := [], width_height := target\<rparr>)),
      save_handler = (\<lambda>fmt img params. Encoded (fmt @ '':'' @ take 4 (pixels img))),
      remove_created = True\<rparr>"

text \<open>The same library with an encoder that fails after it has written two bytes.\<close>

definition failing_pil :: pil where
  "failing_pil =
     example_pil\<lparr>save_handler := (\<lambda>fmt img params. Broken (ImageError ''encoder error'') ''JP'')\<rparr>"

text \<open>The same library with an encoder that writes more than the file held.\<close>

definition growing_pil :: pil where
  "growing_pil =
     example_pil\<lparr>save_handler := (\<lambda>fmt img params. Encoded (fmt @ '':'' @ pixels img @ pixels img))\<rparr>"

text \<open>A service that answers every request, and one whose quota is used up.\<close>

definition example_client :: tinify_client where
  "example_client = \<lparr>shrink = (\<lambda>n b. Inr ''/output/1''), fetch = (\<lambda>n location. Inr ''tiny'')\<rparr>"

definition quota_client :: tinify_client where
  "quota_client =
     \<lparr>shrink = (\<lambda>n b. Inl ''Your monthly limit has been exceeded''),
      fetch = (\<lambda>n location. Inr ''tiny'')\<rparr>"

section \<open>Properties\<close>

subsection \<open>Facts about the file system\<close>

lemma endswith_iff: "endswith s ext \<longleftrightarrow> (\<exists>stem. s = stem @ ext)"
proof
  assume "endswith s ext"
  then have "s = take (length s - length ext) s @ ext"
    by (metis append_take_drop_id endswith_def)
  then show "\<exists>stem. s = stem @ ext" ..
next
  assume "\<exists>stem. s = stem @ ext"
  then show "endswith s ext" by (auto simp: endswith_def)
qed

lemma follow_not_link: "follow n fs p = Some q \<Longrightarrow> fs q \<noteq> Some (Symlink t)"
  by (induction n fs p rule: follow.induct) (auto split: option.splits node.splits)

lemma stat_not_link: "stat fs p \<noteq> Some (Symlink t)"
  by (auto simp: stat_def resolve_def split: option.splits dest: follow_not_link)

lemma exists_getsize: "os_path_exists fs p \<Longrightarrow> \<exists>n. os_path_getsize fs p = Inr n"
  using stat_not_link [of fs p]
  by (auto simp: os_path_exists_def os_path_getsize_def split: option.splits node.splits)

subsection \<open>A path that does not exist\<close>

text \<open>
  C6.  When \<open>os.path.exists\<close> is false for the path, \<open>compress_image\<close> returns without
  raising, and the state after the call is the state before it with one more log
  record, the error that the path does not exist: no file is created or modified.
\<close>

theorem compress_image_missing_path:
  "\<not> os_path_exists (files w) image_path \<Longrightarrow>
     compress_image lib image_path quality resize preserve_exif w =
       (Return (),
        w\<lparr>log_records := log_records w @ [(ERROR, Image_path_does_not_exist image_path)]\<rparr>)"
  by (simp add: compress_image_def logger_error_def)

theorem compress_image_missing_path_witness:
  "\<not> os_path_exists (files (initial_world scenario_files)) ''/no/such/file.png'' \<and>
   compress_image example_pil ''/no/such/file.png'' 45 None False (initial_world scenario_files) =
     (Return (),
      (initial_world scenario_files)\<lparr>log_records :=
         log_records (initial_world scenario_files) @
           [(ERROR, Image_path_does_not_exist ''/no/such/file.png'')]\<rparr>)"
proof -
  have missing: "\<not> os_path_exists (files (initial_world scenario_files)) ''/no/such/file.png''"
    by code_simp
  from missing compress_image_missing_path [OF missing] show ?thesis
    by blast
qed

lemma read_bytes_raises: "read_bytes fs p = Inl e \<Longrightarrow> \<exists>c. e = OSError c"
  by (auto simp: read_bytes_def split: option.splits node.splits if_splits)

lemma open_trunc_raises: "open_trunc rw fs p = Inl e \<Longrightarrow> \<exists>c. e = OSError c"
  by (auto simp: open_trunc_def split: option.splits node.splits if_splits)

lemma tinify_try_service_error:
  assumes "fst (compress_image_tinyfy_try cl image_path w) = Raise (TinifyError m)"
  shows "files (snd (compress_image_tinyfy_try cl image_path w)) = files w"
    and "log_records (snd (compress_image_tinyfy_try cl image_path w)) = log_records w"
    and "\<exists>b. read_bytes (files w) image_path = Inr b \<and>
           (shrink cl (requests w) b = Inl m \<or>
            (\<exists>location. shrink cl (requests w) b = Inr location \<and>
               fetch cl (requests w + 1) location = Inl m))"
  using assms
  by (auto simp: compress_image_tinyfy_try_def tinify_from_file_def tinify_to_file_def
        logger_info_def
      split: sum.splits prod.splits outcome.splits
      dest: read_bytes_raises open_trunc_raises)

subsection \<open>A failure of the remote service\<close>

text \<open>
  C7.  For an existing path: when the body of \<open>compress_image_tinyfy\<close> raises a
  \<open>tinify.Error\<close> with detail \<open>m\<close>, the operation returns without raising, the log
  gains exactly the error record that carries \<open>m\<close>, and the file system is the one
  before the call, so the file keeps its bytes and its size.  Such an error comes from
  the upload or from the download, both of which precede the opening of the file for
  writing.
\<close>

theorem service_error_leaves_file:
  assumes "os_path_exists (files w) image_path"
      and "fst (compress_image_tinyfy_try cl image_path w) = Raise (TinifyError m)"
  shows "fst (compress_image_tinyfy cl image_path w) = Return () \<and>
         log_records (snd (compress_image_tinyfy cl image_path w)) =
           log_records w @ [(ERROR, Tinyfy_API_error (TinifyError m))] \<and>
         files (snd (compress_image_tinyfy cl image_path w)) = files w \<and>
         (\<exists>b. read_bytes (files w) image_path = Inr b \<and>
           (shrink cl (requests w) b = Inl m \<or>
            (\<exists>location. shrink cl (requests w) b = Inr location \<and>
               fetch cl (requests w + 1) location = Inl m)))"
proof -
  obtain out w1 where body: "compress_image_tinyfy_try cl image_path w = (out, w1)"
    by (cases "compress_image_tinyfy_try cl image_path w")
  with assms(2) have out: "out = Raise (TinifyError m)" by simp
  from tinify_try_service_error [OF assms(2)] body
  have same: "files w1 = files w" "log_records w1 = log_records w" by simp_all
  have "compress_image_tinyfy cl image_path w =
          (Return (), logger_error (Tinyfy_API_error (TinifyError m)) w1)"
    using assms(1) body out by (simp add: compress_image_tinyfy_def)
  with same tinify_try_service_error(3) [OF assms(2)] show ?thesis
    by (simp add: logger_error_def)
qed

theorem service_error_leaves_file_witness:
  "os_path_exists (files (initial_world scenario_files)) ''/d/a.jpg'' \<and>
   fst (compress_image_tinyfy_try quota_client ''/d/a.jpg'' (initial_world scenario_files)) =
     Raise (TinifyError ''Your monthly limit has been exceeded'') \<and>
   fst (compress_image_tinyfy quota_client ''/d/a.jpg'' (initial_world scenario_files)) = Return () \<and>
   log_records (snd (compress_image_tinyfy quota_client ''/d/a.jpg'' (initial_world scenario_files))) =
     [(ERROR, Tinyfy_API_error (TinifyError ''Your monthly limit has been exceeded''))] \<and>
   files (snd (compress_image_tinyfy quota_client ''/d/a.jpg'' (initial_world scenario_files))) =
     scenario_files"
proof -
  have there: "os_path_exists (files (initial_world scenario_files)) ''/d/a.jpg''"
    by code_simp
  have fails: "fst (compress_image_tinyfy_try quota_client ''/d/a.jpg'' (initial_world scenario_files)) =
     Raise (TinifyError ''Your monthly limit has been exceeded'')"
    by code_simp
  from service_error_leaves_file [OF there fails] there fails show ?thesis
    by (simp add: initial_world_def)
qed

subsection \<open>Writing to a file that exists\<close>

lemma follow_cong:
  assumes "\<And>x t. fs' x = Some (Symlink t) \<longleftrightarrow> fs x = Some (Symlink t)"
  shows "follow n fs' p = follow n fs p"
proof (induction n arbitrary: p)
  case 0
  show ?case
  proof (cases "\<exists>t. fs p = Some (Symlink t)")
    case True
    then obtain t where "fs p = Some (Symlink t)" by blast
    moreover from this have "fs' p = Some (Symlink t)" using assms by blast
    ultimately show ?thesis by simp
  next
    case False
    moreover from this have "\<not> (\<exists>t. fs' p = Some (Symlink t))" using assms by blast
    ultimately show ?thesis by (auto split: option.splits node.splits)
  qed
next
  case (Suc n)
  show ?case
  proof (cases "\<exists>t. fs p = Some (Symlink t)")
    case True
    then obtain t where "fs p = Some (Symlink t)" by blast
    moreover from this have "fs' p = Some (Symlink t)" using assms by blast
    ultimately show ?thesis using Suc.IH by simp
  next
    case False
    moreover from this have "\<not> (\<exists>t. fs' p = Some (Symlink t))" using assms by blast
    ultimately show ?thesis by (auto split: option.splits node.splits)
  qed
qed

lemma resolve_update_file:
  "fs r = Some (File f) \<Longrightarrow> resolve (fs(r \<mapsto> File f')) p = resolve fs p"
  unfolding resolve_def by (rule follow_cong) auto

lemma stat_update_file:
  assumes "resolve fs p = Some r" and "fs r = Some (File f)"
  shows "stat (fs(r \<mapsto> File f')) p = Some (File f')"
  using assms by (simp add: stat_def resolve_update_file)

lemma open_trunc_existing:
  assumes "resolve fs p = Some r" and "fs r = Some (File f)"
  shows "open_trunc rw fs p =
     (if (if rw then readable f \<and> writable f else writable f)
      then Inr (r, fs(r \<mapsto> File (f\<lparr>content := []\<rparr>)))
      else Inl (OSError ''EACCES''))"
  using assms by (simp add: open_trunc_def)

lemma write_all_truncated:
  "write_all r data (fs(r \<mapsto> File (f\<lparr>content := []\<rparr>))) = fs(r \<mapsto> File (f\<lparr>content := data\<rparr>))"
  by (simp add: write_all_def)

lemma Image_save_existing:
  assumes "resolve (files w) p = Some r" and "files w r = Some (File f)"
  shows "Image_save lib img p fmt params w =
     (case save_handler lib fmt img params of
        Refused e \<Rightarrow> (Raise e, w)
      | Encoded data \<Rightarrow>
          if readable f \<and> writable f
          then (Return (), w\<lparr>files := (files w)(r \<mapsto> File (f\<lparr>content := data\<rparr>))\<rparr>)
          else (Raise (OSError ''EACCES''), w)
      | Broken e part \<Rightarrow>
          if readable f \<and> writable f
          then (Raise e, w\<lparr>files := (files w)(r \<mapsto> File (f\<lparr>content := part\<rparr>))\<rparr>)
          else (Raise (OSError ''EACCES''), w))"
proof -
  have "os_path_exists (files w) p"
    using assms by (simp add: os_path_exists_def stat_def)
  then show ?thesis
    by (cases "readable f \<and> writable f"; cases "save_handler lib fmt img params")
       (auto simp: Image_save_def open_trunc_existing [OF assms] write_all_truncated)
qed

lemma Image_save_log: "log_records (snd (Image_save lib img p fmt params w)) = log_records w"
  by (auto simp: Image_save_def Let_def split: save_result.splits sum.splits prod.splits)

lemma getsize_update_file:
  assumes "resolve fs p = Some r" and "fs r = Some (File f)"
  shows "os_path_getsize (fs(r \<mapsto> File f')) p = Inr (length (content f'))"
  by (simp add: os_path_getsize_def stat_update_file [OF assms])

subsection \<open>The file after \<open>compress_image\<close>\<close>

lemma logger_files [simp]:
  "files (logger_error m w) = files w" "files (logger_info m w) = files w"
  by (simp_all add: logger_error_def logger_info_def)

lemma compress_image_try_files:
  assumes "resolve (files w) image_path = Some r" and "files w r = Some (File f)"
  shows "files (snd (compress_image_try lib image_path quality resize preserve_exif n w)) =
     (case Image_open lib image_path w of
        Inl e \<Rightarrow> files w
      | Inr img \<Rightarrow>
          (case resize_if_given lib img resize of
             Inl e \<Rightarrow> files w
           | Inr img' \<Rightarrow>
               (case save_handler lib (format img) img'
                       (save_arguments quality (exif_argument preserve_exif img)) of
                  Refused e \<Rightarrow> files w
                | Encoded data \<Rightarrow>
                    if readable f \<and> writable f
                    then (files w)(r \<mapsto> File (f\<lparr>content := data\<rparr>)) else files w
                | Broken e part \<Rightarrow>
                    if readable f \<and> writable f
                    then (files w)(r \<mapsto> File (f\<lparr>content := part\<rparr>)) else files w)))"
  by (auto simp: compress_image_try_def Image_save_existing [OF assms]
        getsize_update_file [OF assms]
      split: sum.splits save_result.splits)

lemma compress_image_files_after:
  assumes "resolve (files w) image_path = Some r" and "files w r = Some (File f)"
  shows "files (snd (compress_image lib image_path quality resize preserve_exif w)) =
     (case Image_open lib image_path w of
        Inl e \<Rightarrow> files w
      | Inr img \<Rightarrow>
          (case resize_if_given lib img resize of
             Inl e \<Rightarrow> files w
           | Inr img' \<Rightarrow>
               (case save_handler lib (format img) img'
                       (save_arguments quality (exif_argument preserve_exif img)) of
                  Refused e \<Rightarrow> files w
                | Encoded data \<Rightarrow>
                    if readable f \<and> writable f
                    then (files w)(r \<mapsto> File (f\<lparr>content := data\<rparr>)) else files w
                | Broken e part \<Rightarrow>
                    if readable f \<and> writable f
                    then (files w)(r \<mapsto> File (f\<lparr>content := part\<rparr>)) else files w)))"
proof -
  have there: "os_path_exists (files w) image_path"
    using assms by (simp add: os_path_exists_def stat_def)
  have size: "os_path_getsize (files w) image_path = Inr (length (content f))"
    using assms by (simp add: os_path_getsize_def stat_def)
  have "files (snd (compress_image lib image_path quality resize preserve_exif w)) =
        files (snd (compress_image_try lib image_path quality resize preserve_exif
                      (length (content f)) w))"
    using there size by (simp add: compress_image_def split: prod.splits outcome.splits)
  then show ?thesis
    by (simp only: compress_image_try_files [OF assms])
qed

text \<open>
  C2, as the code has it.  For a path that resolves to a regular file, the file system
  after \<open>compress_image\<close> differs from the one before at most in the content of that
  file.  It is unchanged when the file cannot be read or identified, when resizing
  fails, when saving fails before the target is opened, and when the file may not be
  opened for reading and writing.  When the encoder completes, the file holds exactly
  the encoded bytes.  When the encoder fails after the target was opened, the file
  holds the bytes the encoder wrote until then: it was truncated on opening, and
  nothing restores it.
\<close>

theorem compress_image_file_states:
  assumes "resolve (files w) image_path = Some r" and "files w r = Some (File f)"
  shows "files (snd (compress_image lib image_path quality resize preserve_exif w)) =
     (case Image_open lib image_path w of
        Inl e \<Rightarrow> files w
      | Inr img \<Rightarrow>
          (case resize_if_given lib img resize of
             Inl e \<Rightarrow> files w
           | Inr img' \<Rightarrow>
               (case save_handler lib (format img) img'
                       (save_arguments quality (exif_argument preserve_exif img)) of
                  Refused e \<Rightarrow> files w
                | Encoded data \<Rightarrow>
                    if readable f \<and> writable f
                    then (files w)(r \<mapsto> File (f\<lparr>content := data\<rparr>)) else files w
                | Broken e part \<Rightarrow>
                    if readable f \<and> writable f
                    then (files w)(r \<mapsto> File (f\<lparr>content := part\<rparr>)) else files w)))"
  using assms by (rule compress_image_files_after)

theorem compress_image_file_states_witness:
  "resolve (files (initial_world scenario_files)) ''/d/a.jpg'' = Some ''/d/a.jpg'' \<and>
   files (initial_world scenario_files) ''/d/a.jpg'' =
     Some (File \<lparr>readable = True, writable = True, content = ''JPEG:aaaaaaaaaaaa''\<rparr>) \<and>
   files (snd (compress_image example_pil ''/d/a.jpg'' 45 None False (initial_world scenario_files))) =
     (files (initial_world scenario_files))
       (''/d/a.jpg'' \<mapsto> File \<lparr>readable = True, writable = True, content = ''JPEG:aaaa''\<rparr>) \<and>
   files (snd (compress_image failing_pil ''/d/a.jpg'' 45 None False (initial_world scenario_files))) =
     (files (initial_world scenario_files))
       (''/d/a.jpg'' \<mapsto> File \<lparr>readable = True, writable = True, content = ''JP''\<rparr>)"
proof -
  let ?w = "initial_world scenario_files"
  let ?img = "\<lparr>format = ''JPEG'', width_height = (4, 3), info_exif = None, pixels = ''aaaaaaaaaaaa''\<rparr>"
  have path: "resolve (files ?w) ''/d/a.jpg'' = Some ''/d/a.jpg''"
    by code_simp
  have node: "files ?w ''/d/a.jpg'' =
      Some (File \<lparr>readable = True, writable = True, content = ''JPEG:aaaaaaaaaaaa''\<rparr>)"
    by code_simp
  have opened: "Image_open example_pil ''/d/a.jpg'' ?w = Inr ?img"
    "Image_open failing_pil ''/d/a.jpg'' ?w = Inr ?img"
    by code_simp+
  have kept: "resize_if_given example_pil ?img None = Inr ?img"
    "resize_if_given failing_pil ?img None = Inr ?img"
    by code_simp+
  have encoded: "save_handler example_pil ''JPEG'' ?img
      (save_arguments 45 (exif_argument False ?img)) = Encoded ''JPEG:aaaa''"
    by code_simp
  have broken: "save_handler failing_pil ''JPEG'' ?img
      (save_arguments 45 (exif_argument False ?img)) = Broken (ImageError ''encoder error'') ''JP''"
    by code_simp
  from compress_image_file_states [OF path node, of example_pil 45 None False]
    compress_image_file_states [OF path node, of failing_pil 45 None False]
    path node
  show ?thesis
    by (simp add: opened kept encoded broken)
qed

theorem compress_image_half_written:
  "read_bytes scenario_files ''/d/a.jpg'' = Inr ''JPEG:aaaaaaaaaaaa'' \<and>
   fst (compress_image failing_pil ''/d/a.jpg'' 45 None False (initial_world scenario_files)) = Return () \<and>
   log_records (snd (compress_image failing_pil ''/d/a.jpg'' 45 None False (initial_world scenario_files))) =
     [(ERROR, Error_compressing_image ''/d/a.jpg'' (ImageError ''encoder error''))] \<and>
   read_bytes (files (snd (compress_image failing_pil ''/d/a.jpg'' 45 None False
      (initial_world scenario_files)))) ''/d/a.jpg'' = Inr ''JP''"
  by code_simp

lemma Image_open_file:
  assumes "Image_open lib p w = Inr img" and "os_path_exists (files w) p"
  shows "\<exists>r f. resolve (files w) p = Some r \<and> files w r = Some (File f) \<and> readable f"
  using assms
  by (auto simp: Image_open_def read_bytes_def split: option.splits node.splits sum.splits if_splits)

lemma Image_save_logD:
  "Image_save lib img p fmt params w = (out, w1) \<Longrightarrow> log_records w1 = log_records w"
  using Image_save_log [of lib img p fmt params w] by simp

subsection \<open>The quality and the resize target\<close>

text \<open>
  C10.  For every integer \<open>quality\<close>, with no condition on its value: once the file is
  opened and the optional resize is done, the file system after \<open>compress_image\<close> is
  the one the library's \<open>save\<close> leaves when it is called with the keyword argument
  \<open>quality\<close> holding exactly that integer.  The code neither rejects nor clamps it.
\<close>

theorem quality_forwarded_unchanged:
  assumes "os_path_exists (files w) image_path"
      and "Image_open lib image_path w = Inr img"
      and "resize_if_given lib img resize = Inr img'"
  shows "files (snd (compress_image lib image_path quality resize preserve_exif w)) =
         files (snd (Image_save lib img' image_path (format img)
                       (save_arguments quality (exif_argument preserve_exif img)) w)) \<and>
         map_of (save_arguments quality (exif_argument preserve_exif img)) ''quality'' =
           Some (PyInt quality)"
proof -
  obtain n where size: "os_path_getsize (files w) image_path = Inr n"
    using exists_getsize [OF assms(1)] by blast
  have "files (snd (compress_image lib image_path quality resize preserve_exif w)) =
        files (snd (compress_image_try lib image_path quality resize preserve_exif n w))"
    using assms(1) size by (simp add: compress_image_def split: prod.splits outcome.splits)
  also have "\<dots> = files (snd (Image_save lib img' image_path (format img)
                       (save_arguments quality (exif_argument preserve_exif img)) w))"
    using assms(2,3)
    by (auto simp: compress_image_try_def split: prod.splits outcome.splits sum.splits)
  finally show ?thesis
    by (simp add: save_arguments_def)
qed

theorem quality_forwarded_unchanged_witness:
  "os_path_exists (files (initial_world scenario_files)) ''/d/a.jpg'' \<and>
   files (snd (compress_image example_pil ''/d/a.jpg'' (- 7) None False (initial_world scenario_files))) =
   files (snd (Image_save example_pil
     \<lparr>format = ''JPEG'', width_height = (4, 3), info_exif = None, pixels = ''aaaaaaaaaaaa''\<rparr>
     ''/d/a.jpg'' ''JPEG'' (save_arguments (- 7) PyNone) (initial_world scenario_files))) \<and>
   map_of (save_arguments (- 7) PyNone) ''quality'' = Some (PyInt (- 7))"
proof -
  let ?w = "initial_world scenario_files"
  let ?img = "\<lparr>format = ''JPEG'', width_height = (4, 3), info_exif = None, pixels = ''aaaaaaaaaaaa''\<rparr>"
  have there: "os_path_exists (files ?w) ''/d/a.jpg''"
    by code_simp
  have opened: "Image_open example_pil ''/d/a.jpg'' ?w = Inr ?img"
    by code_simp
  have kept: "resize_if_given example_pil ?img None = Inr ?img"
    by code_simp
  have exif: "exif_argument False ?img = PyNone"
    by code_simp
  from quality_forwarded_unchanged [OF there opened kept, of "- 7" False] there
  show ?thesis
    by (simp add: exif)
qed

text \<open>
  C9.  Let the library's \<open>resize\<close> return an image of the size it is asked for (its
  documented contract).  When \<open>compress_image\<close> succeeds, which is when it logs the
  reduction, the image handed to the encoder is, for a resize target, the result of
  \<open>resize\<close> called with that target as it was given and the filter \<open>ANTIALIAS\<close>, and
  its width and height are the target's; with no target it is the opened image itself.
  The bytes encoded from that image are the content of the file afterwards.
\<close>

theorem resize_exact_dimensions:
  assumes contract:
    "\<And>img target flt img'. resize_image lib img target flt = Inr img' \<Longrightarrow> width_height img' = target"
  and success:
    "log_records (snd (compress_image lib image_path quality resize preserve_exif w)) =
       log_records w @ [(INFO, m)]"
  shows "\<exists>img img' data f.
       Image_open lib image_path w = Inr img \<and>
       (case resize of
          Some target \<Rightarrow>
            resize_image lib img target ANTIALIAS = Inr img' \<and> width_height img' = target
        | None \<Rightarrow> img' = img) \<and>
       save_handler lib (format img) img'
         (save_arguments quality (exif_argument preserve_exif img)) = Encoded data \<and>
       stat (files (snd (compress_image lib image_path quality resize preserve_exif w))) image_path =
         Some (File f) \<and>
       content f = data"
proof -
  have there: "os_path_exists (files w) image_path"
  proof (rule ccontr)
    assume "\<not> os_path_exists (files w) image_path"
    then have "log_records (snd (compress_image lib image_path quality resize preserve_exif w)) =
        log_records w @ [(ERROR, Image_path_does_not_exist image_path)]"
      by (simp add: compress_image_def logger_error_def)
    with success show False by simp
  qed
  then obtain n where size: "os_path_getsize (files w) image_path = Inr n"
    using exists_getsize by blast
  obtain out w1 where body:
    "compress_image_try lib image_path quality resize preserve_exif n w = (out, w1)"
    by (cases "compress_image_try lib image_path quality resize preserve_exif n w")
  have whole: "compress_image lib image_path quality resize preserve_exif w =
      (case out of Raise e \<Rightarrow> (Return (), logger_error (Error_compressing_image image_path e) w1)
       | Return u \<Rightarrow> (Return (), w1))"
    using there size body by (simp add: compress_image_def split: outcome.splits)
  have log_try: "log_records w1 = log_records w \<or>
     (out = Return () \<and> (\<exists>m'. log_records w1 = log_records w @ [(INFO, m')]))"
    using body
    by (auto simp: compress_image_try_def logger_info_def
        split: sum.splits prod.splits outcome.splits if_splits
        dest: Image_save_logD)
  have returned: "out = Return ()"
    using success whole log_try
    by (cases out) (auto simp: logger_error_def)
  obtain img where opened: "Image_open lib image_path w = Inr img"
    using body returned by (auto simp: compress_image_try_def split: sum.splits)
  obtain img' where resized: "resize_if_given lib img resize = Inr img'"
    using body returned opened by (auto simp: compress_image_try_def split: sum.splits)
  from Image_open_file [OF opened there] obtain r f
    where target: "resolve (files w) image_path = Some r" "files w r = Some (File f)"
    by blast
  let ?args = "save_arguments quality (exif_argument preserve_exif img)"
  obtain data where encoded: "save_handler lib (format img) img' ?args = Encoded data"
    and rw: "readable f \<and> writable f"
    using body returned opened resized
    by (auto simp: compress_image_try_def Image_save_existing [OF target]
        split: sum.splits save_result.splits if_splits)
  have "files (snd (compress_image lib image_path quality resize preserve_exif w)) =
        (files w)(r \<mapsto> File (f\<lparr>content := data\<rparr>))"
    using compress_image_files_after [OF target, of lib quality resize preserve_exif]
      opened resized encoded rw by simp
  then have after: "stat (files (snd (compress_image lib image_path quality resize preserve_exif w)))
      image_path = Some (File (f\<lparr>content := data\<rparr>))"
    by (simp add: stat_update_file [OF target])
  have shape: "case resize of
          Some target \<Rightarrow>
            resize_image lib img target ANTIALIAS = Inr img' \<and> width_height img' = target
        | None \<Rightarrow> img' = img"
    using resized contract by (auto simp: resize_if_given_def split: option.splits)
  from opened shape encoded after show ?thesis
    by (intro exI [of _ img] exI [of _ img'] exI [of _ data] exI [of _ "f\<lparr>content := data\<rparr>"]) simp
qed

theorem resize_exact_dimensions_witness:
  "log_records (snd (compress_image example_pil ''/d/a.jpg'' 85 (Some (800, 600)) True
      (initial_world scenario_files))) =
     log_records (initial_world scenario_files) @
       [(INFO, Compressed_Reduction ''/d/a.jpg'' (Decimal False 4706))] \<and>
   (\<exists>img img' data f.
       Image_open example_pil ''/d/a.jpg'' (initial_world scenario_files) = Inr img \<and>
       resize_image example_pil img (800, 600) ANTIALIAS = Inr img' \<and>
       width_height img' = (800, 600) \<and>
       save_handler example_pil (format img) img' (save_arguments 85 (exif_argument True img)) =
         Encoded data \<and>
       stat (files (snd (compress_image example_pil ''/d/a.jpg'' 85 (Some (800, 600)) True
         (initial_world scenario_files)))) ''/d/a.jpg'' = Some (File f) \<and>
       content f = data)"
proof -
  have contract: "\<And>img target flt img'.
      resize_image example_pil img target flt = Inr img' \<Longrightarrow> width_height img' = target"
    by (auto simp: example_pil_def)
  have success: "log_records (snd (compress_image example_pil ''/d/a.jpg'' 85 (Some (800, 600)) True
      (initial_world scenario_files))) =
     log_records (initial_world scenario_files) @
       [(INFO, Compressed_Reduction ''/d/a.jpg'' (Decimal False 4706))]"
    by code_simp
  from resize_exact_dimensions [of example_pil, OF contract success] success
  show ?thesis
    by simp
qed

subsection \<open>Paths that keep their node\<close>

lemma follow_det: "follow k fs p = Some a \<Longrightarrow> follow m fs p = Some b \<Longrightarrow> a = b"
proof (induction k arbitrary: m p)
  case 0
  then show ?case
    by (cases m) (auto split: option.splits node.splits)
next
  case (Suc k)
  show ?case
  proof (cases "\<exists>t. fs p = Some (Symlink t)")
    case True
    then obtain t where t: "fs p = Some (Symlink t)" by blast
    with Suc.prems(2) obtain m' where m: "m = Suc m'"
      by (cases m) auto
    from Suc.prems t m have "follow k fs t = Some a" "follow m' fs t = Some b"
      by auto
    then show ?thesis by (rule Suc.IH)
  next
    case False
    with Suc.prems show ?thesis
      by (cases m) (auto split: option.splits node.splits)
  qed
qed

text \<open>
  Following links gives the same result in a file system that differs only at paths
  from which no node is reached, and in nodes that are not links.
\<close>

lemma follow_avoid:
  assumes links: "\<And>x t. x \<notin> Y \<Longrightarrow> fs' x = Some (Symlink t) \<longleftrightarrow> fs x = Some (Symlink t)"
      and dead: "\<And>y k r. y \<in> Y \<Longrightarrow> follow k fs y = Some r \<Longrightarrow> fs r = None"
      and "follow n fs p = Some r" and "fs r \<noteq> None"
  shows "follow n fs' p = Some r"
  using assms(3)
proof (induction n arbitrary: p)
  case 0
  have "p \<notin> Y" using dead [of p 0 r] 0 assms(4) by blast
  from 0 have "\<not> (\<exists>t. fs p = Some (Symlink t))" and "r = p"
    by (auto split: option.splits node.splits)
  with links [OF \<open>p \<notin> Y\<close>] have "\<not> (\<exists>t. fs' p = Some (Symlink t))" by blast
  with \<open>r = p\<close> show ?case by (auto split: option.splits node.splits)
next
  case (Suc n)
  have "p \<notin> Y" using dead [of p "Suc n" r] Suc.prems assms(4) by blast
  show ?case
  proof (cases "\<exists>t. fs p = Some (Symlink t)")
    case True
    then obtain t where t: "fs p = Some (Symlink t)" by blast
    with links [OF \<open>p \<notin> Y\<close>] have t': "fs' p = Some (Symlink t)" by blast
    from Suc.prems t have "follow n fs t = Some r" by simp
    then have "follow n fs' t = Some r" by (rule Suc.IH)
    with t' show ?thesis by simp
  next
    case False
    with links [OF \<open>p \<notin> Y\<close>] have no: "\<not> (\<exists>t. fs' p = Some (Symlink t))" by blast
    from False Suc.prems have "r = p" by (auto split: option.splits node.splits)
    with no show ?thesis by (auto split: option.splits node.splits)
  qed
qed


lemma same_shape_refl: "same_shape fs fs"
  by (simp add: same_shape_def)

lemma shape_Symlink_iff: "shape nd = Symlink t \<longleftrightarrow> nd = Symlink t"
  by (cases nd) auto

lemma same_shape_links:
  assumes "same_shape fs fs'"
  shows "fs' x = Some (Symlink t) \<longleftrightarrow> fs x = Some (Symlink t)"
proof -
  from assms have eq: "map_option shape (fs' x) = map_option shape (fs x)"
    by (simp add: same_shape_def)
  show ?thesis
  proof
    assume "fs' x = Some (Symlink t)"
    with eq have "map_option shape (fs x) = Some (Symlink t)" by simp
    then show "fs x = Some (Symlink t)" by (auto simp: shape_Symlink_iff)
  next
    assume "fs x = Some (Symlink t)"
    with eq have "map_option shape (fs' x) = Some (Symlink t)" by simp
    then show "fs' x = Some (Symlink t)" by (auto simp: shape_Symlink_iff)
  qed
qed

lemma same_shape_stat:
  assumes "same_shape fs fs'"
  shows "map_option shape (stat fs' p) = map_option shape (stat fs p)"
proof -
  have "resolve fs' p = resolve fs p"
    unfolding resolve_def by (rule follow_cong) (rule same_shape_links [OF assms])
  with assms show ?thesis
    by (auto simp: stat_def same_shape_def split: option.splits)
qed

lemma shape_File_iff: "shape nd = File g \<longleftrightarrow> (\<exists>f. nd = File f \<and> g = f\<lparr>content := []\<rparr>)"
  by (cases nd) auto

lemma isfile_shape: "os_path_isfile fs p \<longleftrightarrow> (\<exists>g. map_option shape (stat fs p) = Some (File g))"
  by (auto simp: os_path_isfile_def shape_File_iff split: option.splits node.splits)

lemma same_shape_isfile:
  "same_shape fs fs' \<Longrightarrow> os_path_isfile fs' p = os_path_isfile fs p"
  by (simp add: isfile_shape same_shape_stat)


lemma open_trunc_cases:
  assumes "open_trunc rw fs p = Inr (q, fs1)"
  shows "resolve fs p = Some q \<and>
     ((\<exists>f. fs q = Some (File f) \<and> fs1 = fs(q \<mapsto> File (f\<lparr>content := []\<rparr>))) \<or>
      (\<exists>sz names. fs q = None \<and> fs (parent_dir q) = Some (Dir sz names) \<and>
         fs1 = fs(parent_dir q \<mapsto> Dir sz (names @ [entry_name q]),
                  q \<mapsto> File \<lparr>readable = True, writable = True, content = []\<rparr>)))"
  using assms
  by (auto simp: open_trunc_def split: option.splits node.splits if_splits)

lemma written_cases:
  assumes "open_trunc rw fs p = Inr (q, fs1)"
  shows "resolve fs p = Some q \<and>
     ((\<exists>f. fs q = Some (File f) \<and> write_all q data fs1 = fs(q \<mapsto> File (f\<lparr>content := data\<rparr>))) \<or>
      (\<exists>sz names. fs q = None \<and> fs (parent_dir q) = Some (Dir sz names) \<and>
         write_all q data fs1 =
           fs(parent_dir q \<mapsto> Dir sz (names @ [entry_name q]),
              q \<mapsto> File \<lparr>readable = True, writable = True, content = data\<rparr>)))"
  using open_trunc_cases [OF assms]
  by (auto simp: write_all_def)


lemma dead_created:
  assumes "resolve fs p = Some q" and "fs q = None" and "follow k fs p = Some r"
  shows "fs r = None"
  using follow_det [OF assms(3)] assms(1,2) by (auto simp: resolve_def)

lemma os_remove_cases:
  assumes "os_remove fs p = Inr fs'"
  shows "fs' p = None \<and>
     (\<forall>x. x \<noteq> p \<longrightarrow> fs' x = fs x \<or> (\<exists>sz names names'. fs x = Some (Dir sz names) \<and> fs' x = Some (Dir sz names')))"
  using assms
  by (auto simp: os_remove_def split: option.splits node.splits)



lemma Image_save_effect:
  assumes "Image_save lib img fp fmt params w = (out, w')"
  shows "log_records w' = log_records w \<and> requests w' = requests w \<and>
     (files w' = files w \<or>
      (\<exists>q fs1 data. open_trunc True (files w) fp = Inr (q, fs1) \<and>
         (files w' = write_all q data fs1 \<or>
          (\<not> os_path_exists (files w) fp \<and>
           os_remove (write_all q data fs1) fp = Inr (files w')))))"
  using assms
  by (auto simp: Image_save_def Let_def split: save_result.splits sum.splits prod.splits if_splits)


subsection \<open>What the operations keep\<close>

lemma same_shape_update:
  "fs r = Some (File f) \<Longrightarrow> same_shape fs (fs(r \<mapsto> File (f\<lparr>content := d\<rparr>)))"
  by (simp add: same_shape_def)

lemma exists_resolved:
  assumes "os_path_exists fs p"
  shows "\<exists>r nd. resolve fs p = Some r \<and> fs r = Some nd"
  using assms by (auto simp: os_path_exists_def stat_def split: option.splits)


lemma tinify_same_shape:
  "same_shape (files w) (files (snd (compress_image_tinyfy cl p w)))"
proof (cases "os_path_exists (files w) p")
  case False
  then show ?thesis by (simp add: compress_image_tinyfy_def same_shape_refl)
next
  case True
  from exists_resolved [OF True] obtain r nd
    where r: "resolve (files w) p = Some r" "files w r = Some nd" by blast
  have written: "same_shape (files w) (write_all q data fs1)"
    if "open_trunc False (files w) p = Inr (q, fs1)" for q fs1 data
    using written_cases [OF that, of data] r
    by (auto simp: same_shape_update)
  show ?thesis
    using True written
    by (auto simp: compress_image_tinyfy_def compress_image_tinyfy_try_def tinify_from_file_def
          tinify_to_file_def same_shape_refl
        split: sum.splits prod.splits outcome.splits)
qed


subsection \<open>The drivers' loop\<close>

lemma for_each_file_is_run_all:
  assumes "\<And>p w q. os_path_isfile (files (snd (operation p w))) q = os_path_isfile (files w) q"
  shows "for_each_file operation d names w = run_all operation (select_images (files w) d names) w"
proof (induction names arbitrary: w)
  case Nil
  show ?case by (simp add: select_images_def)
next
  case (Cons n names)
  have later: "select_images (files (snd (operation p w))) d names = select_images (files w) d names"
    for p
    by (simp add: select_images_def assms)
  show ?case
  proof (cases "os_path_isfile (files w) (os_path_join d n) \<and> is_image_file n")
    case False
    with Cons.IH [of w] show ?thesis by (auto simp: select_images_def)
  next
    case True
    obtain out w' where step: "operation (os_path_join d n) w = (out, w')"
      by (cases "operation (os_path_join d n) w")
    from later [of "os_path_join d n"] step
    have "select_images (files w') d names = select_images (files w) d names" by simp
    with Cons.IH [of w'] True step show ?thesis
      by (cases out) (auto simp: select_images_def)
  qed
qed



lemma run_all_append:
  "run_all operation ps w = (Return (), w1) \<Longrightarrow>
     run_all operation (ps @ qs) w = run_all operation qs w1"
  by (induction ps arbitrary: w) (auto split: prod.splits outcome.splits)

lemma run_all_raises:
  "fst (operation p w) = Raise e \<Longrightarrow> run_all operation (p # qs) w = operation p w"
  by (cases "operation p w") (auto split: outcome.splits)

lemma compress_image_try_log:
  assumes "compress_image_try lib p quality resize preserve_exif n w = (out, w1)"
  shows "(out = Return () \<and> (\<exists>m. log_records w1 = log_records w @ [(INFO, m)])) \<or>
         ((\<exists>e. out = Raise e) \<and> log_records w1 = log_records w)"
  using assms
  by (auto simp: compress_image_try_def logger_info_def
      split: sum.splits prod.splits outcome.splits if_splits
      dest: Image_save_logD)

lemma compress_image_one_record:
  "\<exists>w' rec. compress_image lib p quality resize preserve_exif w = (Return (), w') \<and>
     log_records w' = log_records w @ [rec]"
proof (cases "os_path_exists (files w) p")
  case False
  then show ?thesis by (simp add: compress_image_def logger_error_def)
next
  case True
  then obtain n where size: "os_path_getsize (files w) p = Inr n"
    using exists_getsize by blast
  obtain out w1 where body: "compress_image_try lib p quality resize preserve_exif n w = (out, w1)"
    by (cases "compress_image_try lib p quality resize preserve_exif n w")
  from compress_image_try_log [OF body] True size body show ?thesis
    by (auto simp: compress_image_def logger_error_def)
qed

lemma convert_to_webp_try_log:
  assumes "convert_to_webp_try lib p w = (out, w1)"
  shows "((\<exists>q. out = Return q) \<and> (\<exists>m. log_records w1 = log_records w @ [(INFO, m)])) \<or>
         ((\<exists>e. out = Raise e) \<and> log_records w1 = log_records w)"
  using assms
  by (auto simp: convert_to_webp_try_def logger_info_def Let_def
      split: sum.splits prod.splits outcome.splits if_splits
      dest: Image_save_logD)

lemma convert_to_webp_one_record:
  "\<exists>res w' rec. convert_to_webp lib p w = (Return res, w') \<and>
     log_records w' = log_records w @ [rec]"
proof (cases "os_path_exists (files w) p")
  case False
  then show ?thesis by (simp add: convert_to_webp_def logger_error_def)
next
  case True
  obtain out w1 where body: "convert_to_webp_try lib p w = (out, w1)"
    by (cases "convert_to_webp_try lib p w")
  from convert_to_webp_try_log [OF body] True body show ?thesis
    by (auto simp: convert_to_webp_def logger_error_def)
qed

lemma tinify_try_log:
  assumes "compress_image_tinyfy_try cl p w = (out, w1)"
  shows "(out = Return () \<and> (\<exists>m. log_records w1 = log_records w @ [(INFO, m)])) \<or>
         ((\<exists>e. out = Raise e) \<and> log_records w1 = log_records w)"
  using assms
  by (auto simp: compress_image_tinyfy_try_def tinify_from_file_def tinify_to_file_def
        logger_info_def
      split: sum.splits prod.splits outcome.splits if_splits)

lemma tinify_try_raises:
  assumes "compress_image_tinyfy_try cl p w = (Raise e, w1)"
  shows "(\<exists>m. e = TinifyError m) \<or> (\<exists>c. e = OSError c)"
  using assms
  by (auto simp: compress_image_tinyfy_try_def tinify_from_file_def tinify_to_file_def
      split: sum.splits prod.splits outcome.splits if_splits
      dest: read_bytes_raises open_trunc_raises)

lemma tinify_returns_or_os_error:
  "(\<exists>w' rec. compress_image_tinyfy cl p w = (Return (), w') \<and>
       log_records w' = log_records w @ [rec]) \<or>
   (\<exists>c w'. compress_image_tinyfy cl p w = (Raise (OSError c), w') \<and>
       log_records w' = log_records w)"
proof (cases "os_path_exists (files w) p")
  case False
  then show ?thesis by (simp add: compress_image_tinyfy_def logger_error_def)
next
  case True
  obtain out w1 where body: "compress_image_tinyfy_try cl p w = (out, w1)"
    by (cases "compress_image_tinyfy_try cl p w")
  show ?thesis
  proof (cases out)
    case (Return u)
    with tinify_try_log [OF body] True body show ?thesis
      by (auto simp: compress_image_tinyfy_def)
  next
    case (Raise e)
    with tinify_try_log [OF body] tinify_try_raises [of cl p w e w1] True body show ?thesis
      by (auto simp: compress_image_tinyfy_def logger_error_def)
  qed
qed


lemma tinify_try_not_writable:
  assumes "stat (files w) p = Some (File f)" and "readable f" and "\<not> writable f"
      and "shrink cl (requests w) (content f) = Inr source"
      and "fetch cl (requests w + 1) source = Inr data"
  shows "fst (compress_image_tinyfy_try cl p w) = Raise (OSError ''EACCES'')"
proof -
  from assms(1) obtain r where r: "resolve (files w) p = Some r" "files w r = Some (File f)"
    by (auto simp: stat_def split: option.splits)
  have read: "read_bytes (files w) p = Inr (content f)"
    using r assms(2) by (simp add: read_bytes_def)
  have opened: "open_trunc False (files w) p = Inl (OSError ''EACCES'')"
    using r assms(3) by (simp add: open_trunc_def)
  show ?thesis
    using read opened assms(4,5)
    by (simp add: compress_image_tinyfy_try_def tinify_from_file_def tinify_to_file_def)
qed


subsection \<open>One call for each selected file\<close>






subsection \<open>Exceptions and the per-file operations\<close>

lemma for_each_file_returns:
  assumes "\<And>p w. \<exists>r w'. operation p w = (Return r, w')"
  shows "\<exists>w'. for_each_file operation d names w = (Return (), w')"
proof (induction names arbitrary: w)
  case Nil
  show ?case by simp
next
  case (Cons n names)
  show ?case
  proof (cases "os_path_isfile (files w) (os_path_join d n) \<and> is_image_file n")
    case False
    with Cons.IH [of w] show ?thesis by auto
  next
    case True
    from assms [of "os_path_join d n" w] obtain r w'
      where "operation (os_path_join d n) w = (Return r, w')" by blast
    with Cons.IH [of w'] True show ?thesis by auto
  qed
qed

text \<open>
  C1, as the code has it.  \<open>compress_image\<close> and \<open>convert_to_webp\<close> never raise:
  whatever exception the body of their \<open>try\<close> statement raises is caught, the log gains
  the error record that carries it, and the operation returns; so their drivers return
  once the directory is listed.  \<open>compress_image_tinyfy\<close> catches a \<open>tinify.Error\<close>
  and logs it in the same way, but nothing else: it either returns or raises an
  \<open>OSError\<close>.  Any exception of its body that is no \<open>tinify.Error\<close> leaves the
  operation as it was raised, with nothing logged; a file that may be read but not
  written raises one once the service has answered; and the exception leaves the driver
  at that file, in the state the operation left, the files after it not processed.
\<close>

theorem errors_caught_per_file:
  "fst (compress_image lib image_path quality resize preserve_exif w) = Return () \<and>
   (\<exists>res. fst (convert_to_webp lib image_path w) = Return res) \<and>
   (\<forall>e. os_path_exists (files w) image_path \<and>
        os_path_getsize (files w) image_path = Inr original_size \<and>
        fst (compress_image_try lib image_path quality resize preserve_exif original_size w) = Raise e \<longrightarrow>
        log_records (snd (compress_image lib image_path quality resize preserve_exif w)) =
          log_records w @ [(ERROR, Error_compressing_image image_path e)]) \<and>
   (\<forall>e. os_path_exists (files w) image_path \<and>
        fst (convert_to_webp_try lib image_path w) = Raise e \<longrightarrow>
        fst (convert_to_webp lib image_path w) = Return None \<and>
        log_records (snd (convert_to_webp lib image_path w)) =
          log_records w @ [(ERROR, Error_converting_image_to_WebP e)]) \<and>
   (os_listdir (files w) directory_path = Inr names \<longrightarrow>
        fst (compress_images_in_directory lib directory_path quality resize preserve_exif w) = Return () \<and>
        fst (convert_directory_to_webp lib directory_path w) = Return ()) \<and>
   (fst (compress_image_tinyfy cl image_path w) = Return () \<or>
    (\<exists>c. fst (compress_image_tinyfy cl image_path w) = Raise (OSError c))) \<and>
   (\<forall>m. os_path_exists (files w) image_path \<and>
        fst (compress_image_tinyfy_try cl image_path w) = Raise (TinifyError m) \<longrightarrow>
        fst (compress_image_tinyfy cl image_path w) = Return () \<and>
        log_records (snd (compress_image_tinyfy cl image_path w)) =
          log_records w @ [(ERROR, Tinyfy_API_error (TinifyError m))]) \<and>
   (\<forall>e. os_path_exists (files w) image_path \<and>
        fst (compress_image_tinyfy_try cl image_path w) = Raise e \<and> \<not> is_tinify_Error e \<longrightarrow>
        fst (compress_image_tinyfy cl image_path w) = Raise e \<and>
        log_records (snd (compress_image_tinyfy cl image_path w)) = log_records w) \<and>
   (\<forall>f source data. stat (files w) image_path = Some (File f) \<and>
        readable f \<and> \<not> writable f \<and>
        shrink cl (requests w) (content f) = Inr source \<and>
        fetch cl (requests w + 1) source = Inr data \<longrightarrow>
        fst (compress_image_tinyfy cl image_path w) = Raise (OSError ''EACCES'')) \<and>
   (\<forall>before failing rest w1 e.
        os_listdir (files w) directory_path = Inr names \<and>
        select_images (files w) directory_path names = before @ failing # rest \<and>
        run_all (compress_image_tinyfy cl) before w = (Return (), w1) \<and>
        fst (compress_image_tinyfy cl failing w1) = Raise e \<longrightarrow>
        compress_images_in_directory_tinyfy cl directory_path w =
          compress_image_tinyfy cl failing w1)"
proof (intro conjI allI impI)
  show "fst (compress_image lib image_path quality resize preserve_exif w) = Return ()"
    using compress_image_one_record [of lib image_path quality resize preserve_exif w] by auto
  show "\<exists>res. fst (convert_to_webp lib image_path w) = Return res"
    using convert_to_webp_one_record [of lib image_path w] by auto
next
  fix e
  assume h: "os_path_exists (files w) image_path \<and>
        os_path_getsize (files w) image_path = Inr original_size \<and>
        fst (compress_image_try lib image_path quality resize preserve_exif original_size w) = Raise e"
  obtain out w1 where body:
    "compress_image_try lib image_path quality resize preserve_exif original_size w = (out, w1)"
    by (cases "compress_image_try lib image_path quality resize preserve_exif original_size w")
  with h have out: "out = Raise e" by simp
  with compress_image_try_log [OF body] have "log_records w1 = log_records w" by auto
  with h body out
  show "log_records (snd (compress_image lib image_path quality resize preserve_exif w)) =
          log_records w @ [(ERROR, Error_compressing_image image_path e)]"
    by (simp add: compress_image_def logger_error_def)
next
  fix e
  assume h: "os_path_exists (files w) image_path \<and>
        fst (convert_to_webp_try lib image_path w) = Raise e"
  obtain out w1 where body: "convert_to_webp_try lib image_path w = (out, w1)"
    by (cases "convert_to_webp_try lib image_path w")
  with h have out: "out = Raise e" by simp
  with convert_to_webp_try_log [OF body] have same: "log_records w1 = log_records w" by auto
  from h body out show "fst (convert_to_webp lib image_path w) = Return None"
    by (simp add: convert_to_webp_def)
  from h body out same
  show "log_records (snd (convert_to_webp lib image_path w)) =
          log_records w @ [(ERROR, Error_converting_image_to_WebP e)]"
    by (simp add: convert_to_webp_def logger_error_def)
next
  assume listing: "os_listdir (files w) directory_path = Inr names"
  have "\<exists>r w'. compress_image lib p quality resize preserve_exif w0 = (Return r, w')" for p w0
    using compress_image_one_record [of lib p quality resize preserve_exif w0] by auto
  from for_each_file_returns [of "\<lambda>p. compress_image lib p quality resize preserve_exif", OF this]
  show "fst (compress_images_in_directory lib directory_path quality resize preserve_exif w) = Return ()"
    unfolding compress_images_in_directory_def listing
    by (metis (mono_tags, lifting) fst_conv old.sum.simps(6))
  have "\<exists>r w'. convert_to_webp lib p w0 = (Return r, w')" for p w0
    using convert_to_webp_one_record [of lib p w0] by auto
  from for_each_file_returns [of "convert_to_webp lib", OF this]
  show "fst (convert_directory_to_webp lib directory_path w) = Return ()"
    unfolding convert_directory_to_webp_def listing
    by (metis (mono_tags, lifting) fst_conv old.sum.simps(6))
next
  show "fst (compress_image_tinyfy cl image_path w) = Return () \<or>
    (\<exists>c. fst (compress_image_tinyfy cl image_path w) = Raise (OSError c))"
    using tinify_returns_or_os_error [of cl image_path w] by auto
next
  fix m
  assume h: "os_path_exists (files w) image_path \<and>
        fst (compress_image_tinyfy_try cl image_path w) = Raise (TinifyError m)"
  obtain out w1 where body: "compress_image_tinyfy_try cl image_path w = (out, w1)"
    by (cases "compress_image_tinyfy_try cl image_path w")
  with h have out: "out = Raise (TinifyError m)" by simp
  with tinify_try_log [OF body] have same: "log_records w1 = log_records w" by auto
  from h body out show "fst (compress_image_tinyfy cl image_path w) = Return ()"
    by (simp add: compress_image_tinyfy_def)
  from h body out same
  show "log_records (snd (compress_image_tinyfy cl image_path w)) =
          log_records w @ [(ERROR, Tinyfy_API_error (TinifyError m))]"
    by (simp add: compress_image_tinyfy_def logger_error_def)
next
  fix e
  assume h: "os_path_exists (files w) image_path \<and>
        fst (compress_image_tinyfy_try cl image_path w) = Raise e \<and> \<not> is_tinify_Error e"
  obtain out w1 where body: "compress_image_tinyfy_try cl image_path w = (out, w1)"
    by (cases "compress_image_tinyfy_try cl image_path w")
  with h have out: "out = Raise e" by simp
  with tinify_try_log [OF body] have same: "log_records w1 = log_records w" by auto
  from h body out show "fst (compress_image_tinyfy cl image_path w) = Raise e"
    by (simp add: compress_image_tinyfy_def)
  from h body out same
  show "log_records (snd (compress_image_tinyfy cl image_path w)) = log_records w"
    by (simp add: compress_image_tinyfy_def)
next
  fix f source data
  assume h: "stat (files w) image_path = Some (File f) \<and>
        readable f \<and> \<not> writable f \<and>
        shrink cl (requests w) (content f) = Inr source \<and>
        fetch cl (requests w + 1) source = Inr data"
  then have there: "os_path_exists (files w) image_path"
    by (simp add: os_path_exists_def)
  from h have "fst (compress_image_tinyfy_try cl image_path w) = Raise (OSError ''EACCES'')"
    by (intro tinify_try_not_writable [of w image_path f cl source data]) simp_all
  with there show "fst (compress_image_tinyfy cl image_path w) = Raise (OSError ''EACCES'')"
    by (cases "compress_image_tinyfy_try cl image_path w")
      (simp add: compress_image_tinyfy_def)
next
  fix before failing rest w1 e
  assume h: "os_listdir (files w) directory_path = Inr names \<and>
        select_images (files w) directory_path names = before @ failing # rest \<and>
        run_all (compress_image_tinyfy cl) before w = (Return (), w1) \<and>
        fst (compress_image_tinyfy cl failing w1) = Raise e"
  have "for_each_file (compress_image_tinyfy cl) directory_path names w =
      run_all (compress_image_tinyfy cl) (select_images (files w) directory_path names) w"
    by (simp add: for_each_file_is_run_all same_shape_isfile tinify_same_shape)
  also have "\<dots> = run_all (compress_image_tinyfy cl) (failing # rest) w1"
    using h run_all_append [of "compress_image_tinyfy cl" before w w1 "failing # rest"] by simp
  also have "\<dots> = compress_image_tinyfy cl failing w1"
    using h by (intro run_all_raises [of _ _ _ e]) simp
  finally show "compress_images_in_directory_tinyfy cl directory_path w =
      compress_image_tinyfy cl failing w1"
    using h by (simp add: compress_images_in_directory_tinyfy_def)
qed

theorem errors_caught_per_file_witness:
  "os_path_exists (files (initial_world readonly_files)) ''/d/a.jpg'' \<and>
   os_path_getsize (files (initial_world readonly_files)) ''/d/a.jpg'' = Inr 17 \<and>
   fst (compress_image_try example_pil ''/d/a.jpg'' 45 None False 17 (initial_world readonly_files)) =
     Raise (OSError ''EACCES'') \<and>
   fst (compress_image example_pil ''/d/a.jpg'' 45 None False (initial_world readonly_files)) = Return () \<and>
   log_records (snd (compress_image example_pil ''/d/a.jpg'' 45 None False (initial_world readonly_files))) =
     log_records (initial_world readonly_files) @
       [(ERROR, Error_compressing_image ''/d/a.jpg'' (OSError ''EACCES''))] \<and>
   os_listdir (files (initial_world readonly_files)) ''/d'' = Inr [''a.jpg'', ''b.txt'', ''c.PNG''] \<and>
   fst (compress_images_in_directory example_pil ''/d'' 45 None False (initial_world readonly_files)) =
     Return () \<and>
   fst (convert_directory_to_webp example_pil ''/d'' (initial_world readonly_files)) = Return () \<and>
   os_path_exists (files (initial_world scenario_files)) ''/d/a.jpg'' \<and>
   fst (convert_to_webp_try failing_pil ''/d/a.jpg'' (initial_world scenario_files)) =
     Raise (ImageError ''encoder error'') \<and>
   fst (convert_to_webp failing_pil ''/d/a.jpg'' (initial_world scenario_files)) = Return None \<and>
   log_records (snd (convert_to_webp failing_pil ''/d/a.jpg'' (initial_world scenario_files))) =
     log_records (initial_world scenario_files) @
       [(ERROR, Error_converting_image_to_WebP (ImageError ''encoder error''))] \<and>
   fst (compress_image_tinyfy_try quota_client ''/d/a.jpg'' (initial_world scenario_files)) =
     Raise (TinifyError ''Your monthly limit has been exceeded'') \<and>
   fst (compress_image_tinyfy quota_client ''/d/a.jpg'' (initial_world scenario_files)) = Return () \<and>
   log_records (snd (compress_image_tinyfy quota_client ''/d/a.jpg'' (initial_world scenario_files))) =
     log_records (initial_world scenario_files) @
       [(ERROR, Tinyfy_API_error (TinifyError ''Your monthly limit has been exceeded''))] \<and>
   fst (compress_image_tinyfy_try example_client ''/d/a.jpg'' (initial_world readonly_files)) =
     Raise (OSError ''EACCES'') \<and>
   \<not> is_tinify_Error (OSError ''EACCES'') \<and>
   fst (compress_image_tinyfy example_client ''/d/a.jpg'' (initial_world readonly_files)) =
     Raise (OSError ''EACCES'') \<and>
   log_records (snd (compress_image_tinyfy example_client ''/d/a.jpg'' (initial_world readonly_files))) =
     log_records (initial_world readonly_files) \<and>
   stat (files (initial_world readonly_files)) ''/d/a.jpg'' =
     Some (File \<lparr>readable = True, writable = False, content = ''JPEG:aaaaaaaaaaaa''\<rparr>) \<and>
   shrink example_client (requests (initial_world readonly_files))
     (content \<lparr>readable = True, writable = False, content = ''JPEG:aaaaaaaaaaaa''\<rparr>) = Inr ''/output/1'' \<and>
   fetch example_client (requests (initial_world readonly_files) + 1) ''/output/1'' = Inr ''tiny'' \<and>
   select_images (files (initial_world readonly_files)) ''/d'' [''a.jpg'', ''b.txt'', ''c.PNG''] =
     [] @ ''/d/a.jpg'' # [''/d/c.PNG''] \<and>
   fst (compress_images_in_directory_tinyfy example_client ''/d'' (initial_world readonly_files)) =
     Raise (OSError ''EACCES'') \<and>
   log_records (snd (compress_images_in_directory_tinyfy example_client ''/d''
     (initial_world readonly_files))) = [] \<and>
   read_bytes (files (snd (compress_images_in_directory_tinyfy example_client ''/d''
     (initial_world readonly_files)))) ''/d/c.PNG'' = Inr ''PNG:cccccc''"
proof -
  let ?w = "initial_world readonly_files"
  let ?v = "initial_world scenario_files"
  let ?f = "\<lparr>readable = True, writable = False, content = ''JPEG:aaaaaaaaaaaa''\<rparr>"
  have there: "os_path_exists (files ?w) ''/d/a.jpg''"
    by code_simp
  have size: "os_path_getsize (files ?w) ''/d/a.jpg'' = Inr 17"
    by code_simp
  have raised: "fst (compress_image_try example_pil ''/d/a.jpg'' 45 None False 17 ?w) =
      Raise (OSError ''EACCES'')"
    by code_simp
  have listing: "os_listdir (files ?w) ''/d'' = Inr [''a.jpg'', ''b.txt'', ''c.PNG'']"
    by code_simp
  have there': "os_path_exists (files ?v) ''/d/a.jpg''"
    by code_simp
  have broken: "fst (convert_to_webp_try failing_pil ''/d/a.jpg'' ?v) =
      Raise (ImageError ''encoder error'')"
    by code_simp
  have quota: "fst (compress_image_tinyfy_try quota_client ''/d/a.jpg'' ?v) =
      Raise (TinifyError ''Your monthly limit has been exceeded'')"
    by code_simp
  have denied: "fst (compress_image_tinyfy_try example_client ''/d/a.jpg'' ?w) =
      Raise (OSError ''EACCES'')"
    by code_simp
  have other: "\<not> is_tinify_Error (OSError ''EACCES'')"
    by simp
  have node: "stat (files ?w) ''/d/a.jpg'' = Some (File ?f)"
    by code_simp
  have perms: "readable ?f" "\<not> writable ?f"
    by simp_all
  have uploaded: "shrink example_client (requests ?w) (content ?f) = Inr ''/output/1''"
    by (simp add: example_client_def)
  have downloaded: "fetch example_client (requests ?w + 1) ''/output/1'' = Inr ''tiny''"
    by (simp add: example_client_def)
  have selected: "select_images (files ?w) ''/d'' [''a.jpg'', ''b.txt'', ''c.PNG''] =
      [] @ ''/d/a.jpg'' # [''/d/c.PNG'']"
    by code_simp
  have none_before: "run_all (compress_image_tinyfy example_client) [] ?w = (Return (), ?w)"
    by simp
  have first_raises: "fst (compress_image_tinyfy example_client ''/d/a.jpg'' ?w) =
      Raise (OSError ''EACCES'')"
    by code_simp
  note all = errors_caught_per_file [where lib = example_pil and image_path = "''/d/a.jpg''"
      and quality = 45 and resize = None and preserve_exif = False and w = ?w
      and original_size = 17 and directory_path = "''/d''"
      and names = "[''a.jpg'', ''b.txt'', ''c.PNG'']" and cl = example_client]
  note returned = all [THEN conjunct1]
  note logged = all [THEN conjunct2, THEN conjunct2, THEN conjunct1, THEN spec, THEN mp,
      OF conjI [OF there conjI [OF size raised]]]
  note drivers = all [THEN conjunct2, THEN conjunct2, THEN conjunct2, THEN conjunct2,
      THEN conjunct1, THEN mp, OF listing]
  note escaped = all [THEN conjunct2, THEN conjunct2, THEN conjunct2, THEN conjunct2,
      THEN conjunct2, THEN conjunct2, THEN conjunct2, THEN conjunct1, THEN spec, THEN mp,
      OF conjI [OF there conjI [OF denied other]]]
  note unwritable = all [THEN conjunct2, THEN conjunct2, THEN conjunct2, THEN conjunct2,
      THEN conjunct2, THEN conjunct2, THEN conjunct2, THEN conjunct2, THEN conjunct1,
      THEN spec, THEN spec, THEN spec, THEN mp,
      OF conjI [OF node conjI [OF perms(1) conjI [OF perms(2) conjI [OF uploaded downloaded]]]]]
  note ended = all [THEN conjunct2, THEN conjunct2, THEN conjunct2, THEN conjunct2,
      THEN conjunct2, THEN conjunct2, THEN conjunct2, THEN conjunct2, THEN conjunct2,
      THEN spec, THEN spec, THEN spec, THEN spec, THEN spec, THEN mp,
      OF conjI [OF listing conjI [OF selected conjI [OF none_before first_raises]]]]
  note converted = errors_caught_per_file [where lib = failing_pil
      and image_path = "''/d/a.jpg''" and w = ?v,
      THEN conjunct2, THEN conjunct2, THEN conjunct2, THEN conjunct1, THEN spec, THEN mp,
      OF conjI [OF there' broken]]
  note service = errors_caught_per_file [where cl = quota_client
      and image_path = "''/d/a.jpg''" and w = ?v,
      THEN conjunct2, THEN conjunct2, THEN conjunct2, THEN conjunct2, THEN conjunct2,
      THEN conjunct2, THEN conjunct1, THEN spec, THEN mp,
      OF conjI [OF there' quota]]
  have batch_raised: "fst (compress_images_in_directory_tinyfy example_client ''/d'' ?w) =
      Raise (OSError ''EACCES'')"
    unfolding ended by (rule unwritable)
  have batch_log: "log_records (snd (compress_images_in_directory_tinyfy example_client ''/d'' ?w)) = []"
    unfolding ended by code_simp
  have batch_rest: "read_bytes (files (snd (compress_images_in_directory_tinyfy example_client ''/d'' ?w)))
      ''/d/c.PNG'' = Inr ''PNG:cccccc''"
    unfolding ended by code_simp
  from there size raised returned logged listing drivers [THEN conjunct1] drivers [THEN conjunct2]
    there' broken converted [THEN conjunct1] converted [THEN conjunct2]
    quota service [THEN conjunct1] service [THEN conjunct2]
    denied other escaped [THEN conjunct1] escaped [THEN conjunct2]
    node uploaded downloaded selected batch_raised batch_log batch_rest
  show ?thesis
    by (intro conjI)
qed

theorem remote_compress_raises:
  "os_path_isfile (files (initial_world readonly_files)) ''/d/a.jpg'' \<and>
   fst (compress_image_tinyfy example_client ''/d/a.jpg'' (initial_world readonly_files)) =
     Raise (OSError ''EACCES'') \<and>
   log_records (snd (compress_image_tinyfy example_client ''/d/a.jpg''
     (initial_world readonly_files))) = []"
  by code_simp

subsection \<open>The reported reduction\<close>

lemma compress_image_try_success:
  assumes "compress_image_try lib p quality resize preserve_exif n w = (Return u, w1)"
  shows "\<exists>c percent. os_path_getsize (files w1) p = Inr c \<and> reduction c n = Inr percent \<and>
           log_records w1 = log_records w @ [(INFO, Compressed_Reduction p (format_2f percent))]"
  using assms
  by (auto simp: compress_image_try_def logger_info_def
      split: sum.splits prod.splits outcome.splits if_splits
      dest: Image_save_logD)

lemma reduction_zero: "reduction c 0 = Inl ZeroDivisionError"
  by (simp add: reduction_def true_divide_def)

text \<open>
  C8, as the code has it.  When \<open>compress_image\<close> succeeds, that is when it logs at
  level \<open>INFO\<close>, the file had a positive size before the call, and the message carries
  the path and \<open>(1 - size_after / size_before) * 100\<close> computed on doubles, the quotient,
  the difference and the product each rounded to the nearest double, then printed with
  two decimals and its sign; the two sizes are those that \<open>os.path.getsize\<close> gives
  before and after the call.
\<close>

theorem reported_reduction:
  assumes "log_records (snd (compress_image lib image_path quality resize preserve_exif w)) =
             log_records w @ [(INFO, m)]"
  shows "\<exists>size_before size_after percent.
           os_path_getsize (files w) image_path = Inr size_before \<and> 0 < size_before \<and>
           os_path_getsize (files (snd (compress_image lib image_path quality resize preserve_exif w)))
             image_path = Inr size_after \<and>
           reduction size_after size_before = Inr percent \<and>
           percent = to_double (round_to_double
             (1 - round_to_double (of_nat size_after / of_nat size_before)) * 100) \<and>
           m = Compressed_Reduction image_path (format_2f percent)"
proof (cases "os_path_exists (files w) image_path")
  case False
  with assms show ?thesis by (simp add: compress_image_def logger_error_def)
next
  case True
  then obtain n where size: "os_path_getsize (files w) image_path = Inr n"
    using exists_getsize by blast
  obtain out w1 where body:
    "compress_image_try lib image_path quality resize preserve_exif n w = (out, w1)"
    by (cases "compress_image_try lib image_path quality resize preserve_exif n w")
  show ?thesis
  proof (cases out)
    case (Raise e)
    with compress_image_try_log [OF body] have "log_records w1 = log_records w" by auto
    with assms True size body Raise show ?thesis
      by (simp add: compress_image_def logger_error_def)
  next
    case (Return u)
    with body True size
    have after: "compress_image lib image_path quality resize preserve_exif w = (Return (), w1)"
      by (simp add: compress_image_def)
    from compress_image_try_success [OF body [unfolded Return]] obtain c percent
      where c: "os_path_getsize (files w1) image_path = Inr c"
        and percent: "reduction c n = Inr percent"
        and logged: "log_records w1 =
          log_records w @ [(INFO, Compressed_Reduction image_path (format_2f percent))]"
      by blast
    from percent have positive: "0 < n"
      by (cases "n = 0") (simp_all add: reduction_zero)
    from assms after logged have m: "m = Compressed_Reduction image_path (format_2f percent)"
      by simp
    from percent positive
    have formula: "percent = to_double (round_to_double
             (1 - round_to_double (of_nat c / of_nat n)) * 100)"
      by (auto simp: reduction_def true_divide_def to_double_def Let_def
          split: sum.splits double.splits if_splits)
    from size positive c percent formula m after show ?thesis by simp
  qed
qed

theorem reported_reduction_witness:
  "log_records (snd (compress_image example_pil ''/d/a.jpg'' 45 None False
      (initial_world scenario_files))) =
     log_records (initial_world scenario_files) @
       [(INFO, Compressed_Reduction ''/d/a.jpg'' (Decimal False 4706))] \<and>
   (\<exists>size_before size_after percent.
      os_path_getsize (files (initial_world scenario_files)) ''/d/a.jpg'' = Inr size_before \<and>
      0 < size_before \<and>
      os_path_getsize (files (snd (compress_image example_pil ''/d/a.jpg'' 45 None False
        (initial_world scenario_files)))) ''/d/a.jpg'' = Inr size_after \<and>
      reduction size_after size_before = Inr percent \<and>
      percent = to_double (round_to_double
        (1 - round_to_double (of_nat size_after / of_nat size_before)) * 100) \<and>
      Compressed_Reduction ''/d/a.jpg'' (Decimal False 4706) =
        Compressed_Reduction ''/d/a.jpg'' (format_2f percent)) \<and>
   log_records (snd (compress_image growing_pil ''/d/a.jpg'' 45 None False
      (initial_world scenario_files))) =
     log_records (initial_world scenario_files) @
       [(INFO, Compressed_Reduction ''/d/a.jpg'' (Decimal True 7059))] \<and>
   (\<exists>size_before size_after percent.
      os_path_getsize (files (initial_world scenario_files)) ''/d/a.jpg'' = Inr size_before \<and>
      0 < size_before \<and>
      os_path_getsize (files (snd (compress_image growing_pil ''/d/a.jpg'' 45 None False
        (initial_world scenario_files)))) ''/d/a.jpg'' = Inr size_after \<and>
      reduction size_after size_before = Inr percent \<and>
      percent = to_double (round_to_double
        (1 - round_to_double (of_nat size_after / of_nat size_before)) * 100) \<and>
      Compressed_Reduction ''/d/a.jpg'' (Decimal True 7059) =
        Compressed_Reduction ''/d/a.jpg'' (format_2f percent))"
proof -
  let ?w = "initial_world scenario_files"
  have smaller: "log_records (snd (compress_image example_pil ''/d/a.jpg'' 45 None False ?w)) =
      log_records ?w @ [(INFO, Compressed_Reduction ''/d/a.jpg'' (Decimal False 4706))]"
    by code_simp
  have larger: "log_records (snd (compress_image growing_pil ''/d/a.jpg'' 45 None False ?w)) =
      log_records ?w @ [(INFO, Compressed_Reduction ''/d/a.jpg'' (Decimal True 7059))]"
    by code_simp
  from smaller reported_reduction [OF smaller] larger reported_reduction [OF larger]
  show ?thesis
    by (intro conjI)
qed

theorem printed_reduction_is_rounded:
  "os_path_getsize (files (initial_world scenario_files)) ''/d/a.jpg'' = Inr 17 \<and>
   os_path_getsize (files (snd (compress_image example_pil ''/d/a.jpg'' 45 None False
     (initial_world scenario_files)))) ''/d/a.jpg'' = Inr 9 \<and>
   log_records (snd (compress_image example_pil ''/d/a.jpg'' 45 None False
     (initial_world scenario_files))) =
     [(INFO, Compressed_Reduction ''/d/a.jpg'' (Decimal False 4706))] \<and>
   printed_value (Decimal False 4706) = Some (4706 / 100) \<and>
   (4706 / 100 :: rat) \<noteq> (1 - 9 / 17) * 100 \<and>
   reduction 9 17 = Inr (Finite (6622940628486023 / 140737488355328)) \<and>
   (6622940628486023 / 140737488355328 :: rat) \<noteq> (1 - 9 / 17) * 100"
proof -
  let ?w = "initial_world scenario_files"
  have before: "os_path_getsize (files ?w) ''/d/a.jpg'' = Inr 17"
    by code_simp
  have after: "os_path_getsize (files (snd (compress_image example_pil ''/d/a.jpg'' 45 None False ?w)))
      ''/d/a.jpg'' = Inr 9"
    by code_simp
  have logged: "log_records (snd (compress_image example_pil ''/d/a.jpg'' 45 None False ?w)) =
      [(INFO, Compressed_Reduction ''/d/a.jpg'' (Decimal False 4706))]"
    by code_simp
  have printed: "printed_value (Decimal False 4706) = Some (4706 / 100)"
    by simp
  have rounded: "(4706 / 100 :: rat) \<noteq> (1 - 9 / 17) * 100"
    by simp
  have computed: "reduction 9 17 = Inr (Finite (6622940628486023 / 140737488355328))"
    by code_simp
  have inexact: "(6622940628486023 / 140737488355328 :: rat) \<noteq> (1 - 9 / 17) * 100"
    by simp
  from before after logged printed rounded computed inexact show ?thesis
    by (intro conjI)
qed

subsection \<open>Extensions\<close>

lemma rfind_from_notin: "c \<notin> set s \<Longrightarrow> rfind_from c s i best = best"
  by (induction s arbitrary: i best) auto

lemma rfind_from_append:
  "rfind_from c (xs @ ys) i best = rfind_from c ys (i + length xs) (rfind_from c xs i best)"
  by (induction xs arbitrary: i best) auto

lemma rfind_last: "c \<notin> set ys \<Longrightarrow> rfind (xs @ c # ys) c = int (length xs)"
  by (simp add: rfind_def rfind_from_append rfind_from_notin)

lemma rfind_notin: "c \<notin> set s \<Longrightarrow> rfind s c = - 1"
  by (simp add: rfind_def rfind_from_notin)

lemma rfind_cases:
  "(c \<notin> set s \<and> rfind s c = - 1) \<or>
   (\<exists>xs ys. s = xs @ c # ys \<and> c \<notin> set ys \<and> rfind s c = int (length xs))"
proof (cases "c \<in> set s")
  case True
  then obtain xs ys where "s = xs @ c # ys" "c \<notin> set ys"
    by (meson split_list_last)
  then show ?thesis using rfind_last by blast
next
  case False
  then show ?thesis by (simp add: rfind_notin)
qed

lemma rfind_ge:
  assumes "s = us @ c # vs"
  shows "int (length us) \<le> rfind s c"
proof -
  from rfind_cases [of c s] assms obtain xs ys
    where d: "s = xs @ c # ys" "c \<notin> set ys" "rfind s c = int (length xs)"
    by auto
  have "length us \<le> length xs"
  proof (rule ccontr)
    assume "\<not> length us \<le> length xs"
    then have lt: "length xs < length us" by simp
    have "length s = length us + 1 + length vs"
      by (simp add: assms)
    moreover have "length s = length xs + 1 + length ys"
      by (simp add: d(1))
    ultimately have inside: "length us - length xs - 1 < length ys"
      using lt by linarith
    have "s ! length us = ys ! (length us - length xs - 1)"
      using lt by (simp add: d(1) nth_append nth_Cons')
    with inside have "s ! length us \<in> set ys"
      by simp
    moreover have "s ! length us = c" using assms by simp
    ultimately show False using d(2) by simp
  qed
  with d(3) show ?thesis by simp
qed

lemma rfind_lower_bound: "- 1 \<le> rfind s c"
  using rfind_cases [of c s] by auto

lemma splitext_parts:
  assumes "os_path_splitext p = (stem0, ext)"
  shows "p = stem0 @ ext \<and> CHR ''/'' \<notin> set ext \<and>
         (ext = [] \<or> (\<exists>e. ext = CHR ''.'' # e \<and> CHR ''.'' \<notin> set e))"
proof (cases "rfind p (CHR ''.'') > rfind p (CHR ''/'') \<and>
    list_ex (\<lambda>c. c \<noteq> CHR ''.'')
      (drop (nat (rfind p (CHR ''/'') + 1)) (take (nat (rfind p (CHR ''.''))) p))")
  case False
  with assms have "stem0 = p" "ext = []"
    by (auto simp: os_path_splitext_def Let_def)
  then show ?thesis by simp
next
  case True
  with assms have parts: "stem0 = take (nat (rfind p (CHR ''.''))) p"
    "ext = drop (nat (rfind p (CHR ''.''))) p"
    by (auto simp: os_path_splitext_def Let_def)
  from True rfind_lower_bound [of p "CHR ''/''"] have "rfind p (CHR ''.'') \<noteq> - 1"
    by linarith
  with rfind_cases [of "CHR ''.''" p] obtain xs ys
    where d: "p = xs @ CHR ''.'' # ys" "CHR ''.'' \<notin> set ys" "rfind p (CHR ''.'') = int (length xs)"
    by auto
  from parts d have root: "stem0 = xs" and ext: "ext = CHR ''.'' # ys"
    by simp_all
  have "CHR ''/'' \<notin> set ys"
  proof
    assume "CHR ''/'' \<in> set ys"
    then obtain u v where "ys = u @ CHR ''/'' # v"
      by (meson split_list)
    with d(1) have "p = (xs @ CHR ''.'' # u) @ CHR ''/'' # v" by simp
    from rfind_ge [OF this] have "int (length xs) < rfind p (CHR ''/'')" by simp
    with True d(3) show False by simp
  qed
  with root ext d show ?thesis by simp
qed

lemma lower_char_cases: "lower_char c = c \<or> lower_char c \<in> set ascii_lowercase"
proof (cases "map_of (zip ascii_uppercase ascii_lowercase) c")
  case None
  then show ?thesis by (simp add: lower_char_def)
next
  case (Some l)
  then have "(c, l) \<in> set (zip ascii_uppercase ascii_lowercase)"
    by (rule map_of_SomeD)
  then have "l \<in> set ascii_lowercase"
    by (rule set_zip_rightD)
  with Some show ?thesis by (simp add: lower_char_def)
qed

lemma lower_keeps_separator: "CHR ''/'' \<notin> set s \<Longrightarrow> CHR ''/'' \<notin> set (lower s)"
proof (induction s)
  case Nil
  show ?case by (simp add: lower_def)
next
  case (Cons c s)
  from lower_char_cases [of c] Cons.prems have "lower_char c \<noteq> CHR ''/''"
    by (auto simp: ascii_lowercase_def)
  with Cons show ?case by (simp add: lower_def)
qed

lemma valid_extension_form:
  "ext \<in> set valid_extensions \<Longrightarrow> \<exists>e. ext = CHR ''.'' # e \<and> CHR ''.'' \<notin> set e"
  by (auto simp: valid_extensions_def)

lemma image_name_extension:
  assumes "is_image_file filename" and "CHR ''/'' \<notin> set filename"
  shows "snd (os_path_splitext (lower filename)) \<in> set valid_extensions \<or>
         snd (os_path_splitext (lower filename)) = []"
proof -
  from assms(1) obtain ext stem
    where ext: "ext \<in> set valid_extensions" "lower filename = stem @ ext"
    by (auto simp: is_image_file_def list_ex_iff endswith_iff)
  from valid_extension_form [OF ext(1)] obtain e
    where e: "ext = CHR ''.'' # e" "CHR ''.'' \<notin> set e" by blast
  have dot: "rfind (lower filename) (CHR ''.'') = int (length stem)"
    using ext(2) e by (simp add: rfind_last)
  have sep: "rfind (lower filename) (CHR ''/'') = - 1"
    using lower_keeps_separator [OF assms(2)] by (rule rfind_notin)
  have "os_path_splitext (lower filename) =
      (if list_ex (\<lambda>c. c \<noteq> CHR ''.'') (take (length stem) (lower filename))
       then (take (length stem) (lower filename), drop (length stem) (lower filename))
       else (lower filename, []))"
    by (simp add: os_path_splitext_def Let_def dot sep)
  also have "take (length stem) (lower filename) = stem"
    by (simp add: ext(2))
  also have "drop (length stem) (lower filename) = ext"
    by (simp add: ext(2))
  finally have "os_path_splitext (lower filename) = (stem, ext) \<or>
        os_path_splitext (lower filename) = (lower filename, [])"
    by (simp split: if_splits)
  with ext(1) show ?thesis by auto
qed

lemma isfile_iff:
  "os_path_isfile fs p \<longleftrightarrow> (\<exists>r f. resolve fs p = Some r \<and> fs r = Some (File f))"
  by (auto simp: os_path_isfile_def stat_def split: option.splits node.splits)

lemma is_image_file_iff:
  "is_image_file filename \<longleftrightarrow>
     (\<exists>ext\<in>set valid_extensions. \<exists>stem. lower filename = stem @ ext)"
  by (simp add: is_image_file_def list_ex_iff endswith_iff)

text \<open>
  C4, as the code has it.  A driver hands an entry of the listing to its operation if
  and only if \<open>os.path.isfile\<close> holds for its path, that is, the path leads, through any
  symbolic links, to a regular file, and the lower-cased name ends with one of the six
  extensions; so do the selected paths.  Names that differ only in the case of ASCII
  letters are treated alike.  A selected name without a separator has, in the sense of
  \<open>os.path.splitext\<close>, one of the six extensions or none (a name such as \<open>.jpg\<close>): an
  entry with any other extension is not selected.
\<close>

theorem selector_test:
  "for_each_file operation directory_path (filename # rest) w =
     (if (\<exists>r f. resolve (files w) (os_path_join directory_path filename) = Some r \<and>
                 files w r = Some (File f)) \<and>
         (\<exists>ext\<in>set valid_extensions. \<exists>stem. lower filename = stem @ ext)
      then (case operation (os_path_join directory_path filename) w of
              (Raise e, w') \<Rightarrow> (Raise e, w')
            | (Return r, w') \<Rightarrow> for_each_file operation directory_path rest w')
      else for_each_file operation directory_path rest w) \<and>
   select_images fs directory_path names =
     map (os_path_join directory_path)
       (filter (\<lambda>n. (\<exists>r f. resolve fs (os_path_join directory_path n) = Some r \<and>
                           fs r = Some (File f)) \<and>
                    (\<exists>ext\<in>set valid_extensions. \<exists>stem. lower n = stem @ ext)) names) \<and>
   valid_extensions = [''.jpg'', ''.jpeg'', ''.png'', ''.gif'', ''.bmp'', ''.webp''] \<and>
   (lower a = lower b \<longrightarrow> is_image_file a = is_image_file b) \<and>
   (is_image_file filename \<and> CHR ''/'' \<notin> set filename \<longrightarrow>
      snd (os_path_splitext (lower filename)) \<in> set valid_extensions \<or>
      snd (os_path_splitext (lower filename)) = [])"
proof (intro conjI impI)
  show "for_each_file operation directory_path (filename # rest) w =
     (if (\<exists>r f. resolve (files w) (os_path_join directory_path filename) = Some r \<and>
                 files w r = Some (File f)) \<and>
         (\<exists>ext\<in>set valid_extensions. \<exists>stem. lower filename = stem @ ext)
      then (case operation (os_path_join directory_path filename) w of
              (Raise e, w') \<Rightarrow> (Raise e, w')
            | (Return r, w') \<Rightarrow> for_each_file operation directory_path rest w')
      else for_each_file operation directory_path rest w)"
    unfolding isfile_iff [symmetric] is_image_file_iff [symmetric]
    by (simp add: Let_def)
  show "select_images fs directory_path names =
     map (os_path_join directory_path)
       (filter (\<lambda>n. (\<exists>r f. resolve fs (os_path_join directory_path n) = Some r \<and>
                           fs r = Some (File f)) \<and>
                    (\<exists>ext\<in>set valid_extensions. \<exists>stem. lower n = stem @ ext)) names)"
    unfolding isfile_iff [symmetric] is_image_file_iff [symmetric]
    by (simp add: select_images_def)
  show "valid_extensions = [''.jpg'', ''.jpeg'', ''.png'', ''.gif'', ''.bmp'', ''.webp'']"
    by (simp add: valid_extensions_def)
next
  assume "lower a = lower b"
  then show "is_image_file a = is_image_file b"
    by (simp add: is_image_file_def)
next
  assume "is_image_file filename \<and> CHR ''/'' \<notin> set filename"
  then show "snd (os_path_splitext (lower filename)) \<in> set valid_extensions \<or>
      snd (os_path_splitext (lower filename)) = []"
    using image_name_extension by blast
qed

theorem selector_test_witness:
  "select_images (files (initial_world scenario_files)) ''/d'' [''a.jpg'', ''b.txt'', ''c.PNG''] =
     [os_path_join ''/d'' ''a.jpg'', os_path_join ''/d'' ''c.PNG''] \<and>
   lower ''A.JPG'' = lower ''a.jpg'' \<and>
   is_image_file ''A.JPG'' = is_image_file ''a.jpg'' \<and>
   is_image_file ''c.PNG'' \<and> CHR ''/'' \<notin> set ''c.PNG'' \<and>
   (snd (os_path_splitext (lower ''c.PNG'')) \<in> set valid_extensions \<or>
    snd (os_path_splitext (lower ''c.PNG'')) = [])"
proof -
  let ?fs = "files (initial_world scenario_files)"
  have same: "lower ''A.JPG'' = lower ''a.jpg''"
    by code_simp
  have image: "is_image_file ''c.PNG'' \<and> CHR ''/'' \<notin> set ''c.PNG''"
    by code_simp
  have a: "os_path_isfile ?fs (os_path_join ''/d'' ''a.jpg'')" "is_image_file ''a.jpg''"
    by code_simp+
  have b: "\<not> is_image_file ''b.txt''"
    by code_simp
  have c: "os_path_isfile ?fs (os_path_join ''/d'' ''c.PNG'')" "is_image_file ''c.PNG''"
    by code_simp+
  note all = selector_test [where a = "''A.JPG''" and b = "''a.jpg''" and filename = "''c.PNG''"
      and fs = ?fs and directory_path = "''/d''" and names = "[''a.jpg'', ''b.txt'', ''c.PNG'']"]
  note rest = all [THEN conjunct2, THEN conjunct2, THEN conjunct2]
  have selected: "select_images ?fs ''/d'' [''a.jpg'', ''b.txt'', ''c.PNG''] =
     [os_path_join ''/d'' ''a.jpg'', os_path_join ''/d'' ''c.PNG'']"
    unfolding all [THEN conjunct2, THEN conjunct1]
    unfolding isfile_iff [symmetric] is_image_file_iff [symmetric]
    using a b c by simp
  from selected same rest [THEN conjunct1, THEN mp, OF same] image
    rest [THEN conjunct2, THEN mp, OF image]
  show ?thesis
    by blast
qed

theorem symbolic_link_selected:
  "files (initial_world linked_files) ''/d/l.gif'' = Some (Symlink ''/d/a.jpg'') \<and>
   os_listdir (files (initial_world linked_files)) ''/d'' = Inr [''a.jpg'', ''l.gif''] \<and>
   select_images (files (initial_world linked_files)) ''/d'' [''a.jpg'', ''l.gif''] =
     [''/d/a.jpg'', ''/d/l.gif''] \<and>
   log_records (snd (compress_images_in_directory example_pil ''/d'' 85 None False
      (initial_world linked_files))) =
     [(INFO, Compressed_Reduction ''/d/a.jpg'' (Decimal False 4706)),
      (INFO, Compressed_Reduction ''/d/l.gif'' (Decimal False 0))]"
  by code_simp

subsection \<open>The source of a conversion\<close>

lemma follow_file: "fs p = Some (File f) \<Longrightarrow> follow n fs p = Some p"
  by (cases n) simp_all

lemma resolve_file: "fs p = Some (File f) \<Longrightarrow> resolve fs p = Some p"
  by (simp add: resolve_def follow_file)

lemma stat_frame:
  assumes links: "\<And>x t. x \<notin> Y \<Longrightarrow> fs' x = Some (Symlink t) \<longleftrightarrow> fs x = Some (Symlink t)"
      and dead: "\<And>y k r. y \<in> Y \<Longrightarrow> follow k fs y = Some r \<Longrightarrow> fs r = None"
      and "resolve fs p = Some r" and "fs r = Some nd" and "fs' r = Some nd"
  shows "stat fs' p = Some nd"
proof -
  have "follow MAXSYMLINKS fs' p = Some r"
    using assms(3,4) unfolding resolve_def by (intro follow_avoid [OF links dead]) auto
  with assms(5) show ?thesis by (simp add: stat_def resolve_def)
qed

lemma Image_save_frame:
  assumes saved: "Image_save lib img fp fmt params w = (out, w')"
      and source: "resolve (files w) p = Some r" "files w r = Some (File f)"
      and other: "resolve (files w) fp \<noteq> Some r"
  shows "stat (files w') p = Some (File f)"
proof -
  let ?fs = "files w"
  from Image_save_effect [OF saved]
  consider "files w' = ?fs"
    | q fs1 data where "open_trunc True ?fs fp = Inr (q, fs1)" "files w' = write_all q data fs1"
    | q fs1 data where "open_trunc True ?fs fp = Inr (q, fs1)" "\<not> os_path_exists ?fs fp"
        "os_remove (write_all q data fs1) fp = Inr (files w')"
    by blast
  then show ?thesis
  proof cases
    case 1
    with source show ?thesis by (simp add: stat_def)
  next
    case 2
    note wr = written_cases [OF 2(1), of data]
    with other have "q \<noteq> r" by auto
    show ?thesis
    proof (rule stat_frame [where Y = "{}" and fs = ?fs, OF _ _ source(1) source(2)])
      fix x t
      show "files w' x = Some (Symlink t) \<longleftrightarrow> ?fs x = Some (Symlink t)"
        unfolding 2(2) using wr by (auto split: if_splits)
    next
      show "files w' r = Some (File f)"
        unfolding 2(2) using wr \<open>q \<noteq> r\<close> source(2) by (auto split: if_splits)
    qed simp
  next
    case 3
    note wr = written_cases [OF 3(1), of data]
    from wr 3(2) have q: "resolve ?fs fp = Some q" "?fs q = None"
      by (auto simp: os_path_exists_def stat_def)
    with other have "q \<noteq> r" by auto
    have "r \<noteq> fp"
    proof
      assume "r = fp"
      with source(2) have "resolve ?fs fp = Some fp"
        by (simp add: resolve_file)
      with other \<open>r = fp\<close> show False by simp
    qed
    note rem = os_remove_cases [OF 3(3)]
    show ?thesis
    proof (rule stat_frame [where Y = "{fp}" and fs = ?fs, OF _ _ source(1) source(2)])
      fix y k r'
      assume "y \<in> {fp}" and "follow k ?fs y = Some r'"
      then show "?fs r' = None" using dead_created [OF q] by simp
    next
      fix x t
      assume "x \<notin> {fp}"
      then have "x \<noteq> fp" by simp
      with rem have "files w' x = write_all q data fs1 x \<or>
        (\<exists>sz names names'. write_all q data fs1 x = Some (Dir sz names) \<and>
           files w' x = Some (Dir sz names'))"
        by blast
      then show "files w' x = Some (Symlink t) \<longleftrightarrow> ?fs x = Some (Symlink t)"
        using wr by (auto split: if_splits)
    next
      from rem \<open>r \<noteq> fp\<close> have "files w' r = write_all q data fs1 r \<or>
        (\<exists>sz names names'. write_all q data fs1 r = Some (Dir sz names) \<and>
           files w' r = Some (Dir sz names'))"
        by blast
      then show "files w' r = Some (File f)"
        using wr \<open>q \<noteq> r\<close> source(2) by (auto split: if_splits)
    qed
  qed
qed

lemma Image_save_success:
  assumes "Image_save lib img fp fmt params w = (Return u, w')"
  shows "\<exists>data f. save_handler lib fmt img params = Encoded data \<and>
           stat (files w') fp = Some (File f) \<and> content f = data"
proof -
  from assms obtain data q fs1
    where enc: "save_handler lib fmt img params = Encoded data"
      and opened: "open_trunc True (files w) fp = Inr (q, fs1)"
      and after: "files w' = write_all q data fs1"
    by (auto simp: Image_save_def Let_def split: save_result.splits sum.splits if_splits)
  note wr = written_cases [OF opened, of data]
  have "resolve (files w') fp = resolve (files w) fp"
    unfolding resolve_def after
    using wr by (intro follow_cong) (auto split: if_splits)
  with wr have "resolve (files w') fp = Some q" by simp
  moreover have "\<exists>f. files w' q = Some (File f) \<and> content f = data"
    unfolding after using wr by auto
  ultimately show ?thesis
    using enc by (auto simp: stat_def)
qed

text \<open>
  C3, as the code has it.  Let the source exist and let the derived path, the source
  path with the extension that \<open>os.path.splitext\<close> finds replaced by \<open>.webp\<close>, not lead
  to the same file as the source path.  Then \<open>convert_to_webp\<close> leaves the source as it
  was, and it never raises.  When it returns a path, that is the derived path, and the
  file there holds the bytes that the encoder for \<open>WEBP\<close> made of the opened image.
  When it returns \<open>None\<close>, the log has gained an error record.  The derived path shares
  with the source everything but the extension, which holds no separator.
\<close>

theorem convert_to_webp_keeps_source:
  assumes there: "os_path_exists (files w) image_path"
      and other: "resolve (files w) (fst (os_path_splitext image_path) @ ''.webp'') \<noteq>
                  resolve (files w) image_path"
  shows "stat (files (snd (convert_to_webp lib image_path w))) image_path = stat (files w) image_path \<and>
         (\<exists>res. fst (convert_to_webp lib image_path w) = Return res) \<and>
         (\<forall>p'. fst (convert_to_webp lib image_path w) = Return (Some p') \<longrightarrow>
            p' = fst (os_path_splitext image_path) @ ''.webp'' \<and>
            (\<exists>img data f.
               Image_open lib image_path w = Inr img \<and>
               save_handler lib ''WEBP'' img [] = Encoded data \<and>
               stat (files (snd (convert_to_webp lib image_path w))) p' = Some (File f) \<and>
               content f = data)) \<and>
         (fst (convert_to_webp lib image_path w) = Return None \<longrightarrow>
            (\<exists>e. log_records (snd (convert_to_webp lib image_path w)) =
               log_records w @ [(ERROR, Error_converting_image_to_WebP e)])) \<and>
         (\<exists>ext. image_path = fst (os_path_splitext image_path) @ ext \<and>
            CHR ''/'' \<notin> set ext \<and>
            (ext = [] \<or> (\<exists>e. ext = CHR ''.'' # e \<and> CHR ''.'' \<notin> set e)))"
proof (intro conjI allI impI)
  let ?webp = "fst (os_path_splitext image_path) @ ''.webp''"
  obtain out w1 where body: "convert_to_webp_try lib image_path w = (out, w1)"
    by (cases "convert_to_webp_try lib image_path w")
  have whole: "convert_to_webp lib image_path w =
      (case out of
         Raise e \<Rightarrow> (Return None, logger_error (Error_converting_image_to_WebP e) w1)
       | Return webp_path \<Rightarrow> (Return (Some webp_path), w1))"
    using there body by (simp add: convert_to_webp_def split: outcome.splits)
  have files_whole: "files (snd (convert_to_webp lib image_path w)) = files w1"
    using whole by (simp split: outcome.splits)
  show "stat (files (snd (convert_to_webp lib image_path w))) image_path = stat (files w) image_path"
  proof (cases "Image_open lib image_path w")
    case (Inl e)
    with body have "w1 = w" by (simp add: convert_to_webp_try_def)
    with files_whole show ?thesis by simp
  next
    case (Inr img)
    from Image_open_file [OF Inr there] obtain r f
      where source: "resolve (files w) image_path = Some r" "files w r = Some (File f)"
      by blast
    obtain out' w' where saved: "Image_save lib img ?webp ''WEBP'' [] w = (out', w')"
      by (cases "Image_save lib img ?webp ''WEBP'' [] w")
    with body Inr have "files w1 = files w'"
      by (auto simp: convert_to_webp_try_def Let_def split: outcome.splits)
    moreover from other source have "resolve (files w) ?webp \<noteq> Some r" by simp
    from Image_save_frame [OF saved source this]
    have "stat (files w') image_path = Some (File f)" .
    moreover from source have "stat (files w) image_path = Some (File f)"
      by (simp add: stat_def)
    ultimately show ?thesis using files_whole by simp
  qed
  show "\<exists>res. fst (convert_to_webp lib image_path w) = Return res"
    using whole by (simp split: outcome.splits)
  show "\<exists>ext. image_path = fst (os_path_splitext image_path) @ ext \<and>
            CHR ''/'' \<notin> set ext \<and>
            (ext = [] \<or> (\<exists>e. ext = CHR ''.'' # e \<and> CHR ''.'' \<notin> set e))"
    using splitext_parts [of image_path "fst (os_path_splitext image_path)"
        "snd (os_path_splitext image_path)"]
    by auto
  { fix p'
    assume ok: "fst (convert_to_webp lib image_path w) = Return (Some p')"
    with whole have out: "out = Return p'"
      by (cases out) simp_all
    from body out obtain img where opened: "Image_open lib image_path w = Inr img"
      by (cases "Image_open lib image_path w") (simp_all add: convert_to_webp_try_def)
    obtain out' w' where saved': "Image_save lib img ?webp ''WEBP'' [] w = (out', w')"
      by (cases "Image_save lib img ?webp ''WEBP'' [] w")
    have "(out, w1) =
        (case out' of
           Raise e \<Rightarrow> (Raise e, w')
         | Return u \<Rightarrow> (Return ?webp, logger_info (Converted_to_WebP image_path) w'))"
      unfolding body [symmetric]
      by (simp add: convert_to_webp_try_def Let_def opened saved' split: outcome.splits)
    with out have facts: "out' = Return ()" "files w1 = files w'" "p' = ?webp"
      by (cases out'; simp)+
    show "p' = ?webp" by (rule facts(3))
    from saved' facts(1) have saved: "Image_save lib img ?webp ''WEBP'' [] w = (Return (), w')"
      by simp
    from Image_save_success [OF saved] obtain data f
      where enc: "save_handler lib ''WEBP'' img [] = Encoded data"
        and written: "stat (files w') ?webp = Some (File f)" "content f = data"
      by blast
    have "stat (files (snd (convert_to_webp lib image_path w))) p' = Some (File f)"
      using written(1) facts(2,3) files_whole by simp
    with opened enc written(2)
    show "\<exists>img data f.
               Image_open lib image_path w = Inr img \<and>
               save_handler lib ''WEBP'' img [] = Encoded data \<and>
               stat (files (snd (convert_to_webp lib image_path w))) p' = Some (File f) \<and>
               content f = data"
      by blast }
  { assume "fst (convert_to_webp lib image_path w) = Return None"
    with whole obtain e where out: "out = Raise e"
      by (cases out) simp_all
    with convert_to_webp_try_log [OF body] have "log_records w1 = log_records w" by auto
    with whole out
    show "\<exists>e. log_records (snd (convert_to_webp lib image_path w)) =
               log_records w @ [(ERROR, Error_converting_image_to_WebP e)]"
      by (simp add: logger_error_def) }
qed

theorem convert_to_webp_keeps_source_witness:
  "os_path_exists (files (initial_world scenario_files)) ''/d/a.jpg'' \<and>
   fst (os_path_splitext ''/d/a.jpg'') @ ''.webp'' = ''/d/a.webp'' \<and>
   resolve (files (initial_world scenario_files)) ''/d/a.webp'' \<noteq>
     resolve (files (initial_world scenario_files)) ''/d/a.jpg'' \<and>
   stat (files (snd (convert_to_webp example_pil ''/d/a.jpg'' (initial_world scenario_files))))
     ''/d/a.jpg'' = stat (files (initial_world scenario_files)) ''/d/a.jpg'' \<and>
   fst (convert_to_webp example_pil ''/d/a.jpg'' (initial_world scenario_files)) =
     Return (Some ''/d/a.webp'') \<and>
   (\<exists>img data f.
      Image_open example_pil ''/d/a.jpg'' (initial_world scenario_files) = Inr img \<and>
      save_handler example_pil ''WEBP'' img [] = Encoded data \<and>
      stat (files (snd (convert_to_webp example_pil ''/d/a.jpg'' (initial_world scenario_files))))
        ''/d/a.webp'' = Some (File f) \<and>
      content f = data)"
proof -
  let ?w = "initial_world scenario_files"
  have there: "os_path_exists (files ?w) ''/d/a.jpg''"
    by code_simp
  have derived: "fst (os_path_splitext ''/d/a.jpg'') @ ''.webp'' = ''/d/a.webp''"
    by code_simp
  have other: "resolve (files ?w) (fst (os_path_splitext ''/d/a.jpg'') @ ''.webp'') \<noteq>
      resolve (files ?w) ''/d/a.jpg''"
    by code_simp
  have converted: "fst (convert_to_webp example_pil ''/d/a.jpg'' ?w) = Return (Some ''/d/a.webp'')"
    by code_simp
  note all = convert_to_webp_keeps_source [OF there other, of example_pil]
  note kept = all [THEN conjunct1]
  note written = all [THEN conjunct2, THEN conjunct2, THEN conjunct1, THEN spec, THEN mp,
      OF converted, THEN conjunct2]
  from there derived other [unfolded derived] kept converted written
  show ?thesis
    by (intro conjI)
qed

theorem convert_to_webp_overwrites_webp_source:
  "fst (os_path_splitext ''/d/p.webp'') @ ''.webp'' = ''/d/p.webp'' \<and>
   read_bytes (files (initial_world webp_files)) ''/d/p.webp'' = Inr ''WEBP:pppppppp'' \<and>
   fst (convert_to_webp example_pil ''/d/p.webp'' (initial_world webp_files)) =
     Return (Some ''/d/p.webp'') \<and>
   read_bytes (files (snd (convert_to_webp example_pil ''/d/p.webp'' (initial_world webp_files))))
     ''/d/p.webp'' = Inr ''WEBP:pppp''"
  by code_simp

end
